theory Spec2Isabelle
  imports Main "HOL-Library.Sublist"
begin

section \<open>JavaScript strings\<close>

text \<open>
  A JavaScript string is modelled as a \<^typ>\<open>string\<close>: the list of its code units, for
  code units below 256. The helpers below are the library calls the handlers make.
\<close>

text \<open>\<^verbatim>\<open>s.slice(-n)\<close>: the last \<open>n\<close> code units (all of \<open>s\<close> when it is shorter).\<close>

definition slice_last :: "nat \<Rightarrow> string \<Rightarrow> string" where
  "slice_last n s = drop (length s - n) s"

text \<open>\<^verbatim>\<open>s.substring(0, n)\<close>.\<close>

definition substring0 :: "nat \<Rightarrow> string \<Rightarrow> string" where
  "substring0 n s = take n s"

text \<open>
  White space as \<^verbatim>\<open>trim()\<close> and the regular expression class \<^verbatim>\<open>\s\<close> read it
  (tab, line feed, vertical tab, form feed, carriage return, space, no-break space;
  the remaining members of the class lie above code unit 255).
\<close>

definition is_js_space :: "char \<Rightarrow> bool" where
  "is_js_space c = (c \<in> set [CHR 0x09, CHR 0x0A, CHR 0x0B, CHR 0x0C, CHR 0x0D, CHR 0x20, CHR 0xA0])"

definition trim :: "string \<Rightarrow> string" where
  "trim s = rev (dropWhile is_js_space (rev (dropWhile is_js_space s)))"

text \<open>\<^verbatim>\<open>s.startsWith(p)\<close>.\<close>

definition startsWith :: "string \<Rightarrow> string \<Rightarrow> bool" where
  "startsWith s p = prefix p s"

text \<open>
  The first occurrence of a search string: the text before it and the text after it.
\<close>

fun split_first :: "string \<Rightarrow> string \<Rightarrow> (string \<times> string) option" where
  "split_first pat [] = (if pat = [] then Some ([], []) else None)"
| "split_first pat (c # cs) =
     (if prefix pat (c # cs) then Some ([], drop (length pat) (c # cs))
      else (case split_first pat cs of
              None \<Rightarrow> None
            | Some (b, a) \<Rightarrow> Some (c # b, a)))"

text \<open>
  The replacement text of \<^verbatim>\<open>String.prototype.replace\<close> with a string pattern:
  \<^verbatim>\<open>$$\<close> stands for a dollar sign, \<^verbatim>\<open>$&\<close> for the matched text, a dollar sign and
  a backquote for the text before the match, a dollar sign and a quote for the text
  after it. There are no capture groups, so every other dollar sign stands for itself.
\<close>

fun expand_replacement :: "string \<Rightarrow> string \<Rightarrow> string \<Rightarrow> string \<Rightarrow> string" where
  "expand_replacement m b a (c # d # r) =
     (if c = CHR ''$'' then
        (if d = CHR ''$'' then CHR ''$'' # expand_replacement m b a r
         else if d = CHR ''&'' then m @ expand_replacement m b a r
         else if d = CHR 0x60 then b @ expand_replacement m b a r
         else if d = CHR 0x27 then a @ expand_replacement m b a r
         else c # expand_replacement m b a (d # r))
      else c # expand_replacement m b a (d # r))"
| "expand_replacement m b a r = r"

text \<open>\<^verbatim>\<open>s.replace(pat, templ)\<close> for a string \<open>pat\<close>: the first occurrence only.\<close>

definition js_replace :: "string \<Rightarrow> string \<Rightarrow> string \<Rightarrow> string" where
  "js_replace s pat templ =
     (case split_first pat s of
        None \<Rightarrow> s
      | Some (b, a) \<Rightarrow> b @ expand_replacement pat b a templ @ a)"

text \<open>\<^verbatim>\<open>dataUrl.replace(/;/g, "%3B")\<close>: every semicolon, none of the rest.\<close>

definition encode_semicolons :: "string \<Rightarrow> string" where
  "encode_semicolons p = concat (map (\<lambda>c. if c = CHR '';'' then ''%3B'' else [c]) p)"


section \<open>Cache references in the diagram text\<close>

text \<open>
  The pattern \<^verbatim>\<open>/image=data:cache\/([^/]+)\/([^;"\s]+)/g\<close>. At a given position it can
  match in one way only: the literal, the longest run of characters other than a
  slash (not empty, and followed by a slash), then the longest run of characters
  other than a semicolon, a double quote and white space (not empty).
\<close>

definition cache_prefix :: string where
  "cache_prefix = ''image=data:cache/''"

definition is_name_char :: "char \<Rightarrow> bool" where
  "is_name_char c = (c \<noteq> CHR '';'' \<and> c \<noteq> CHR 0x22 \<and> \<not> is_js_space c)"

definition cache_match_at :: "string \<Rightarrow> (string \<times> string \<times> string) option" where
  "cache_match_at s =
     (if prefix cache_prefix s then
        (let t = drop (length cache_prefix) s;
             key = takeWhile (\<lambda>c. c \<noteq> CHR ''/'') t;
             t' = dropWhile (\<lambda>c. c \<noteq> CHR ''/'') t
         in if key = [] \<or> t' = [] then None
            else (let u = tl t'; name = takeWhile is_name_char u
                  in if name = [] then None
                     else Some (key, name, dropWhile is_name_char u)))
      else None)"

lemma cache_match_at_shorter:
  "cache_match_at s = Some (k, n, rest) \<Longrightarrow> length rest < length s"
proof -
  assume m: "cache_match_at s = Some (k, n, rest)"
  define t where "t = drop (length cache_prefix) s"
  define t' where "t' = dropWhile (\<lambda>c. c \<noteq> CHR ''/'') t"
  from m have p: "prefix cache_prefix s"
    by (auto simp: cache_match_at_def split: if_splits)
  from m p have ne: "t' \<noteq> []" and r: "rest = dropWhile is_name_char (tl t')"
    by (auto simp: cache_match_at_def Let_def t_def t'_def split: if_splits)
  have "length rest \<le> length (tl t')"
    unfolding r by (rule length_dropWhile_le)
  also have "\<dots> < length t'"
    using ne by (cases t') auto
  also have "\<dots> \<le> length t"
    unfolding t'_def by (rule length_dropWhile_le)
  also have "\<dots> \<le> length s"
    by (simp add: t_def)
  finally show ?thesis .
qed

text \<open>
  \<^verbatim>\<open>[...xml.matchAll(cachePattern)]\<close>: the matches from left to right, each search
  starting where the previous match ended. A match is kept as its two groups, the
  cache key and the region name.
\<close>

function matchAll :: "string \<Rightarrow> (string \<times> string) list" where
  "matchAll [] = []"
| "matchAll (c # cs) =
     (case cache_match_at (c # cs) of
        Some (k, n, rest) \<Rightarrow> (k, n) # matchAll rest
      | None \<Rightarrow> matchAll cs)"
  by pat_completeness auto
termination
  by (relation "measure length") (auto dest: cache_match_at_shorter)

text \<open>\<^verbatim>\<open>new Set(xs)\<close>, iterated: the distinct elements in the order of first insertion.\<close>

fun set_add_all :: "'a list \<Rightarrow> 'a list \<Rightarrow> 'a list" where
  "set_add_all acc [] = acc"
| "set_add_all acc (x # xs) =
     (if x \<in> set acc then set_add_all acc xs else set_add_all (acc @ [x]) xs)"

definition new_Set :: "'a list \<Rightarrow> 'a list" where
  "new_Set xs = set_add_all [] xs"

text \<open>
  The token a match is searched by, \<^verbatim>\<open>image=data:cache/${cacheKey}/${regionName}\<close>.
\<close>

definition searchStr :: "string \<Rightarrow> string \<Rightarrow> string" where
  "searchStr cacheKey regionName = cache_prefix @ cacheKey @ ''/'' @ regionName"

text \<open>
  The region mapping of one cache key, as the response of the get-cached-regions
  endpoint carries it: a JSON object from region names to data URLs, given by its own
  properties.
\<close>

type_synonym regions = "string \<rightharpoonup> string"

text \<open>
  A member access \<^verbatim>\<open>regions[regionName]\<close> on a parsed JSON object gives the own
  property of that name when there is one, else the member of \<^verbatim>\<open>Object.prototype\<close> of
  that name when there is one (a function or an object, never a string), else
  undefined.
\<close>

definition object_prototype_members :: "string list" where
  "object_prototype_members =
     [''constructor'', ''hasOwnProperty'', ''isPrototypeOf'', ''propertyIsEnumerable'',
      ''toLocaleString'', ''toString'', ''valueOf'', ''__defineGetter__'', ''__defineSetter__'',
      ''__lookupGetter__'', ''__lookupSetter__'', ''__proto__'']"

datatype member = Undefined | OwnString string | Inherited

definition get_member :: "regions \<Rightarrow> string \<Rightarrow> member" where
  "get_member regions_obj regionName =
     (case regions_obj regionName of
        Some dataUrl \<Rightarrow> OwnString dataUrl
      | None \<Rightarrow> if regionName \<in> set object_prototype_members then Inherited else Undefined)"

text \<open>The payload a region name resolves to: an own property that is not empty.\<close>

definition truthy_region :: "regions \<Rightarrow> string \<Rightarrow> string option" where
  "truthy_region regions_obj regionName =
     (case regions_obj regionName of
        None \<Rightarrow> None
      | Some dataUrl \<Rightarrow> if dataUrl = [] then None else Some dataUrl)"

text \<open>
  The body of the inner loop of \<^verbatim>\<open>handleDisplayDiagram\<close> for one match: when the
  match belongs to the cache key being processed and \<^verbatim>\<open>regions[regionName]\<close> is
  truthy, the semicolons of the data URL are encoded and the first occurrence of the
  token in the current text is replaced. An inherited member is truthy and has no
  \<^verbatim>\<open>replace\<close> method: the call throws a TypeError (\<^const>\<open>None\<close>).
\<close>

definition replace_match ::
  "string \<Rightarrow> regions \<Rightarrow> (string \<times> string) \<Rightarrow> string \<Rightarrow> string option" where
  "replace_match cacheKey regions_obj m xml =
     (case m of (key, regionName) \<Rightarrow>
        (if key = cacheKey then
           (case get_member regions_obj regionName of
              Undefined \<Rightarrow> Some xml
            | OwnString dataUrl \<Rightarrow>
                (if dataUrl = [] then Some xml
                 else Some (js_replace xml (searchStr cacheKey regionName)
                              (''image='' @ encode_semicolons dataUrl)))
            | Inherited \<Rightarrow> None)
         else Some xml))"

text \<open>
  The inner loop over the matches. It runs inside the \<^verbatim>\<open>try\<close> block of the cache key:
  when a match throws, the \<^verbatim>\<open>catch\<close> block logs the error, the text keeps the
  replacements made so far and the remaining matches are skipped for this key.
\<close>

fun replace_matches :: "string \<Rightarrow> regions \<Rightarrow> (string \<times> string) list \<Rightarrow> string \<Rightarrow> string" where
  "replace_matches cacheKey regions_obj [] xml = xml"
| "replace_matches cacheKey regions_obj (m # ms) xml =
     (case replace_match cacheKey regions_obj m xml of
        None \<Rightarrow> xml
      | Some xml' \<Rightarrow> replace_matches cacheKey regions_obj ms xml')"

text \<open>
  One iteration of the outer loop: the cache key is fetched; a response that is not
  ok, and a fetch that throws, leave the text as it is (the parameter \<open>fetch\<close> gives
  \<^const>\<open>None\<close> for both).
\<close>

definition replace_cache_key ::
  "(string \<Rightarrow> regions option) \<Rightarrow> (string \<times> string) list \<Rightarrow> string \<Rightarrow> string \<Rightarrow> string" where
  "replace_cache_key fetch cacheMatches cacheKey xml =
     (case fetch cacheKey of
        None \<Rightarrow> xml
      | Some regions_obj \<Rightarrow> replace_matches cacheKey regions_obj cacheMatches xml)"

text \<open>
  The cache replacement of \<^verbatim>\<open>handleDisplayDiagram\<close>: the matches are taken once, from
  the text as it came in; the keys are processed in the order of their first match.
\<close>

definition resolve_cache_references :: "(string \<Rightarrow> regions option) \<Rightarrow> string \<Rightarrow> string" where
  "resolve_cache_references fetch xml =
     (let cacheMatches = matchAll xml
      in fold (replace_cache_key fetch cacheMatches) (new_Set (map fst cacheMatches)) xml)"

section \<open>The tool handlers\<close>

text \<open>
  The hook \<^verbatim>\<open>useDiagramToolHandlers\<close> works on three references and four callbacks.
  The references are the state; the calls of \<^verbatim>\<open>onDisplayChart\<close>, \<^verbatim>\<open>addToolOutput\<close>
  and \<^verbatim>\<open>onExport\<close> are recorded in the state in the order they are made.
\<close>

datatype op_name = OpUpdate | OpAdd | OpDelete

record diagram_operation =
  operation :: op_name
  cell_id :: string
  new_xml :: "string option"

text \<open>An entry of \<^verbatim>\<open>errors\<close>, as \<^verbatim>\<open>handleEditDiagram\<close> reads it.\<close>

record operation_error =
  err_type :: string
  cellId :: string
  message :: string

datatype tool_output =
    OutputAvailable string string string
  | OutputError string string string

record handler_state =
  partialXmlRef :: string
  editDiagramOriginalXmlRef :: "string \<rightharpoonup> string"
  chartXMLRef :: string
  displayCalls :: "string list"
  toolOutputs :: "tool_output list"
  exportCalls :: nat

text \<open>
  What the handlers import or receive and this development does not have the code of.
  \<open>onDisplayChart\<close> returns the validation error or null; \<open>onFetchChart\<close> and
  \<open>applyDiagramOperations\<close> run inside a \<^verbatim>\<open>try\<close> block, so they may throw
  (\<^const>\<open>Inl\<close> with the error's message); \<open>fetchCachedRegions\<close> is the POST to
  \<^verbatim>\<open>/api/get-cached-regions\<close>, \<^const>\<open>None\<close> when the response is not ok or the fetch
  throws.
\<close>

record deps =
  isMxCellXmlComplete :: "string \<Rightarrow> bool"
  wrapWithMxFile :: "string \<Rightarrow> string"
  onDisplayChart :: "string \<Rightarrow> string option"
  onFetchChart :: "string + string"
  applyDiagramOperations ::
    "string \<Rightarrow> diagram_operation list \<Rightarrow> string + (string \<times> operation_error list)"
  fetchCachedRegions :: "string \<Rightarrow> regions option"

definition addToolOutput :: "tool_output \<Rightarrow> handler_state \<Rightarrow> handler_state" where
  "addToolOutput out st = st\<lparr>toolOutputs := toolOutputs st @ [out]\<rparr>"

text \<open>\<^verbatim>\<open>if (validationError)\<close>: null and the empty string both count as no error.\<close>

definition truthy_string :: "string option \<Rightarrow> string option" where
  "truthy_string v = (case v of None \<Rightarrow> None | Some e \<Rightarrow> if e = [] then None else Some e)"

text \<open>\<^verbatim>\<open>lines.join("\n")\<close>.\<close>

fun join_lines :: "string list \<Rightarrow> string" where
  "join_lines [] = []"
| "join_lines [l] = l"
| "join_lines (l # m # ls) = l @ ''\<newline>'' @ join_lines (m # ls)"

text \<open>A number in a template literal: its decimal digits.\<close>

fun show_nat :: "nat \<Rightarrow> string" where
  "show_nat n =
     (if n < 10 then [char_of (48 + n)]
      else show_nat (n div 10) @ [char_of (48 + n mod 10)])"

declare show_nat.simps [simp del]

subsection \<open>The texts returned to the model\<close>

definition truncated_text :: "string \<Rightarrow> string" where
  \<open>truncated_text partialEnding =
     ''Output was truncated due to length limits. Use the append_diagram tool to continue.''
     @ ''\<newline>\<newline>Your output ended with:\<newline>```\<newline>''
     @ partialEnding
     @ ''\<newline>```\<newline>\<newline>NEXT STEP: Call append_diagram with the continuation XML.''
     @ ''\<newline>- Do NOT include wrapper tags or root cells (id="0", id="1")''
     @ ''\<newline>- Start from EXACTLY where you stopped''
     @ ''\<newline>- Complete all remaining mxCell elements''\<close>

definition display_invalid_text :: "string \<Rightarrow> string \<Rightarrow> string" where
  "display_invalid_text validationError finalXml =
     validationError
     @ ''\<newline>\<newline>Please fix the XML issues and call display_diagram again with corrected XML.''
     @ ''\<newline>\<newline>Your failed XML:\<newline>```xml\<newline>''
     @ finalXml
     @ ''\<newline>```''"

definition operation_error_line :: "operation_error \<Rightarrow> string" where
  \<open>operation_error_line e =
     ''- '' @ err_type e @ '' on cell_id="'' @ cellId e @ ''": '' @ message e\<close>

definition operations_failed_text :: "operation_error list \<Rightarrow> string \<Rightarrow> string" where
  "operations_failed_text errors currentXml =
     ''Some operations failed:\<newline>''
     @ join_lines (map operation_error_line errors)
     @ ''\<newline>\<newline>Current diagram XML:\<newline>```xml\<newline>''
     @ currentXml
     @ ''\<newline>```\<newline>\<newline>Please check the cell IDs and retry.''"

definition edit_invalid_text :: "string \<Rightarrow> string \<Rightarrow> string" where
  "edit_invalid_text validationError currentXml =
     ''Edit produced invalid XML: '' @ validationError
     @ ''\<newline>\<newline>Current diagram XML:\<newline>```xml\<newline>''
     @ currentXml
     @ ''\<newline>```\<newline>\<newline>Please fix the operations to avoid structural issues.''"

definition edit_success_text :: "nat \<Rightarrow> string" where
  "edit_success_text n =
     ''Successfully applied '' @ show_nat n @ '' operation(s) to the diagram.''"

definition edit_failed_text :: "string \<Rightarrow> string \<Rightarrow> string" where
  "edit_failed_text errorMessage currentXml =
     ''Edit failed: '' @ errorMessage
     @ ''\<newline>\<newline>Current diagram XML:\<newline>```xml\<newline>''
     @ (if currentXml = [] then ''No XML available'' else currentXml)
     @ ''\<newline>```\<newline>\<newline>Please check cell IDs and retry, or use display_diagram to regenerate.''"

definition fresh_start_text :: "string \<Rightarrow> string" where
  \<open>fresh_start_text partialEnding =
     ''ERROR: You started fresh with wrapper tags. Do NOT include wrapper tags or root cells (id="0", id="1").''
     @ ''\<newline>\<newline>Continue from EXACTLY where the partial ended:\<newline>```\<newline>''
     @ partialEnding
     @ ''\<newline>```\<newline>\<newline>Start your continuation with the NEXT character after where it stopped.''\<close>

definition assembly_invalid_text :: "string \<Rightarrow> string \<Rightarrow> string" where
  "assembly_invalid_text validationError finalXml =
     ''Validation error after assembly: '' @ validationError
     @ ''\<newline>\<newline>Assembled XML:\<newline>```xml\<newline>''
     @ substring0 2000 finalXml
     @ ''...\<newline>```\<newline>\<newline>Please use display_diagram with corrected XML.''"

definition still_incomplete_text :: "string \<Rightarrow> string" where
  "still_incomplete_text partialEnding =
     ''XML still incomplete (mxCell not closed). Call append_diagram again to continue.''
     @ ''\<newline>\<newline>Current ending:\<newline>```\<newline>''
     @ partialEnding
     @ ''\<newline>```\<newline>\<newline>Continue from EXACTLY where you stopped.''"

subsection \<open>display_diagram\<close>

definition handleDisplayDiagram :: "deps \<Rightarrow> string \<Rightarrow> string \<Rightarrow> handler_state \<Rightarrow> handler_state" where
  "handleDisplayDiagram d toolCallId input_xml st =
     (let xml = resolve_cache_references (fetchCachedRegions d) input_xml
      in if \<not> isMxCellXmlComplete d xml then
           addToolOutput
             (OutputError ''display_diagram'' toolCallId (truncated_text (slice_last 500 xml)))
             (st\<lparr>partialXmlRef := xml\<rparr>)
         else
           (let finalXml = xml;
                st1 = st\<lparr>partialXmlRef := []\<rparr>;
                fullXml = wrapWithMxFile d finalXml;
                st2 = st1\<lparr>displayCalls := displayCalls st1 @ [fullXml]\<rparr>
            in case truthy_string (onDisplayChart d fullXml) of
                 Some validationError \<Rightarrow>
                   addToolOutput
                     (OutputError ''display_diagram'' toolCallId
                        (display_invalid_text validationError finalXml))
                     st2
               | None \<Rightarrow>
                   addToolOutput
                     (OutputAvailable ''display_diagram'' toolCallId
                        ''Successfully displayed the diagram.'')
                     st2))"

subsection \<open>edit_diagram\<close>

text \<open>
  The document the operations are applied to: the text captured while streaming,
  else the cached chart, else an export of the chart (which may throw).
\<close>

definition current_xml :: "deps \<Rightarrow> string \<Rightarrow> handler_state \<Rightarrow> string + string" where
  "current_xml d toolCallId st =
     (case truthy_string (editDiagramOriginalXmlRef st toolCallId) of
        Some originalXml \<Rightarrow> Inr originalXml
      | None \<Rightarrow>
          (case truthy_string (Some (chartXMLRef st)) of
             Some cachedXML \<Rightarrow> Inr cachedXML
           | None \<Rightarrow> onFetchChart d))"

definition delete_original :: "string \<Rightarrow> handler_state \<Rightarrow> handler_state" where
  "delete_original toolCallId st =
     st\<lparr>editDiagramOriginalXmlRef := (editDiagramOriginalXmlRef st)(toolCallId := None)\<rparr>"

definition handleEditDiagram ::
  "deps \<Rightarrow> string \<Rightarrow> diagram_operation list \<Rightarrow> handler_state \<Rightarrow> handler_state" where
  "handleEditDiagram d toolCallId operations st =
     (case current_xml d toolCallId st of
        Inl errorMessage \<Rightarrow>
          delete_original toolCallId
            (addToolOutput
               (OutputError ''edit_diagram'' toolCallId (edit_failed_text errorMessage []))
               st)
      | Inr currentXml \<Rightarrow>
          (case applyDiagramOperations d currentXml operations of
             Inl errorMessage \<Rightarrow>
               delete_original toolCallId
                 (addToolOutput
                    (OutputError ''edit_diagram'' toolCallId
                       (edit_failed_text errorMessage currentXml))
                    st)
           | Inr (editedXml, errors) \<Rightarrow>
               (if length errors > 0 then
                  delete_original toolCallId
                    (addToolOutput
                       (OutputError ''edit_diagram'' toolCallId
                          (operations_failed_text errors currentXml))
                       st)
                else
                  (let st1 = st\<lparr>displayCalls := displayCalls st @ [editedXml]\<rparr>
                   in case truthy_string (onDisplayChart d editedXml) of
                        Some validationError \<Rightarrow>
                          delete_original toolCallId
                            (addToolOutput
                               (OutputError ''edit_diagram'' toolCallId
                                  (edit_invalid_text validationError currentXml))
                               st1)
                      | None \<Rightarrow>
                          delete_original toolCallId
                            (addToolOutput
                               (OutputAvailable ''edit_diagram'' toolCallId
                                  (edit_success_text (length operations)))
                               (st1\<lparr>exportCalls := Suc (exportCalls st1)\<rparr>))))))"

subsection \<open>append_diagram\<close>

definition isFreshStart :: "string \<Rightarrow> bool" where
  \<open>isFreshStart xml =
     (let trimmed = trim xml
      in startsWith trimmed ''<mxGraphModel'' \<or>
         startsWith trimmed ''<root'' \<or>
         startsWith trimmed ''<mxfile'' \<or>
         startsWith trimmed ''<mxCell id="0"'' \<or>
         startsWith trimmed ''<mxCell id="1"'')\<close>

definition handleAppendDiagram :: "deps \<Rightarrow> string \<Rightarrow> string \<Rightarrow> handler_state \<Rightarrow> handler_state" where
  "handleAppendDiagram d toolCallId xml st =
     (if isFreshStart xml then
        addToolOutput
          (OutputError ''append_diagram'' toolCallId
             (fresh_start_text (slice_last 500 (partialXmlRef st))))
          st
      else
        (let st1 = st\<lparr>partialXmlRef := partialXmlRef st @ xml\<rparr>
         in if isMxCellXmlComplete d (partialXmlRef st1) then
              (let finalXml = partialXmlRef st1;
                   st2 = st1\<lparr>partialXmlRef := []\<rparr>;
                   fullXml = wrapWithMxFile d finalXml;
                   st3 = st2\<lparr>displayCalls := displayCalls st2 @ [fullXml]\<rparr>
               in case truthy_string (onDisplayChart d fullXml) of
                    Some validationError \<Rightarrow>
                      addToolOutput
                        (OutputError ''append_diagram'' toolCallId
                           (assembly_invalid_text validationError finalXml))
                        st3
                  | None \<Rightarrow>
                      addToolOutput
                        (OutputAvailable ''append_diagram'' toolCallId
                           ''Diagram assembly complete and displayed successfully.'')
                        st3)
            else
              addToolOutput
                (OutputError ''append_diagram'' toolCallId
                   (still_incomplete_text (slice_last 500 (partialXmlRef st1))))
                st1))"

subsection \<open>The dispatcher\<close>

text \<open>
  A tool call with its input, in the shape the tool's schema gives it. A tool name
  other than the three diagram tools is not handled by the hook.
\<close>

datatype tool_call =
    DisplayDiagram string string
  | EditDiagram string "diagram_operation list"
  | AppendDiagram string string
  | OtherTool string string

fun handleToolCall :: "deps \<Rightarrow> tool_call \<Rightarrow> handler_state \<Rightarrow> handler_state" where
  "handleToolCall d (DisplayDiagram toolCallId xml) st = handleDisplayDiagram d toolCallId xml st"
| "handleToolCall d (EditDiagram toolCallId operations) st = handleEditDiagram d toolCallId operations st"
| "handleToolCall d (AppendDiagram toolCallId xml) st = handleAppendDiagram d toolCallId xml st"
| "handleToolCall d (OtherTool toolCallId toolName) st = st"

section \<open>The region store on the server\<close>

text \<open>
  \<^verbatim>\<open>global.extractedRegionsCache\<close> is a map from cache keys to region mappings, undefined
  until the first extraction. The state also holds the pending timers (due time in
  milliseconds, cache key) and the clock that \<^verbatim>\<open>Date.now()\<close> reads.
\<close>

record server_state =
  extractedRegionsCache :: "(string \<rightharpoonup> regions) option"
  timers :: "(nat \<times> string) list"
  clock :: nat

text \<open>
  The body of a request to \<^verbatim>\<open>/api/get-cached-regions\<close>: not JSON (or no object),
  an object whose \<^verbatim>\<open>cacheKey\<close> is a string, or one where it is anything else.
\<close>

datatype request = BadJson | CacheKeyString string | CacheKeyOther

datatype response = JsonError nat string | JsonRegions regions

text \<open>The route handler of \<^verbatim>\<open>get-cached-regions/route.ts\<close>; it writes nothing.\<close>

definition get_cached_regions_POST :: "request \<Rightarrow> server_state \<Rightarrow> response \<times> server_state" where
  "get_cached_regions_POST req st =
     (case req of
        BadJson \<Rightarrow> (JsonError 500 ''Failed to retrieve cached regions'', st)
      | CacheKeyOther \<Rightarrow> (JsonError 400 ''Invalid cache key'', st)
      | CacheKeyString cacheKey \<Rightarrow>
          (if cacheKey = [] then (JsonError 400 ''Invalid cache key'', st)
           else
             (case extractedRegionsCache st of
                None \<Rightarrow> (JsonError 404 ''Cache not initialized'', st)
              | Some cache \<Rightarrow>
                  (case cache cacheKey of
                     None \<Rightarrow> (JsonError 404 ''Cache expired or not found'', st)
                   | Some regionMapping \<Rightarrow> (JsonRegions regionMapping, st)))))"

text \<open>What the client's \<^verbatim>\<open>fetch\<close> makes of a response: the regions when it is ok.\<close>

definition regions_of_response :: "response \<Rightarrow> regions option" where
  "regions_of_response r = (case r of JsonRegions m \<Rightarrow> Some m | JsonError status msg \<Rightarrow> None)"

text \<open>
  The store of \<^verbatim>\<open>extract_image_regions.execute\<close> in \<^verbatim>\<open>chat/route.ts\<close>: the key is made
  of the clock and a random suffix, the mapping of the regions extracted without
  error (name, data URL) is set under it, and a timer is scheduled ten minutes on.
\<close>

definition ttl_ms :: nat where
  "ttl_ms = 10 * 60 * 1000"

definition new_cache_key :: "nat \<Rightarrow> string \<Rightarrow> string" where
  "new_cache_key now rnd = ''extract_'' @ show_nat now @ ''_'' @ rnd"

definition region_mapping :: "(string \<times> string) list \<Rightarrow> regions" where
  "region_mapping extracted = fold (\<lambda>(name, dataUrl) m. m(name \<mapsto> dataUrl)) extracted Map.empty"

definition store_regions :: "string \<Rightarrow> (string \<times> string) list \<Rightarrow> server_state \<Rightarrow> server_state" where
  "store_regions rnd extracted st =
     (let cacheKey = new_cache_key (clock st) rnd;
          cache = (case extractedRegionsCache st of None \<Rightarrow> Map.empty | Some c \<Rightarrow> c)
      in st\<lparr>extractedRegionsCache := Some (cache(cacheKey \<mapsto> region_mapping extracted)),
            timers := timers st @ [(clock st + ttl_ms, cacheKey)]\<rparr>)"

text \<open>The timer's callback, \<^verbatim>\<open>global.extractedRegionsCache?.delete(cacheKey)\<close>.\<close>

definition timer_callback :: "string \<Rightarrow> (string \<rightharpoonup> regions) option \<Rightarrow> (string \<rightharpoonup> regions) option" where
  "timer_callback cacheKey cache = map_option (\<lambda>c. c(cacheKey := None)) cache"

text \<open>
  Time passing: the clock advances and the callbacks of the timers that are due by
  then run; the other timers stay pending.
\<close>

definition elapse :: "nat \<Rightarrow> server_state \<Rightarrow> server_state" where
  "elapse ms st =
     (let now = clock st + ms;
          due = filter (\<lambda>(t, k). t \<le> now) (timers st)
      in st\<lparr>extractedRegionsCache := fold (\<lambda>(t, k). timer_callback k) due (extractedRegionsCache st),
            timers := filter (\<lambda>(t, k). \<not> t \<le> now) (timers st),
            clock := now\<rparr>)"

datatype server_event =
    Request request
  | Store string "(string \<times> string) list"
  | Elapse nat

fun server_step :: "server_event \<Rightarrow> server_state \<Rightarrow> server_state" where
  "server_step (Request req) st = snd (get_cached_regions_POST req st)"
| "server_step (Store rnd extracted) st = store_regions rnd extracted st"
| "server_step (Elapse ms) st = elapse ms st"

definition lookup_cache :: "server_state \<Rightarrow> string \<Rightarrow> regions option" where
  "lookup_cache st k = (case extractedRegionsCache st of None \<Rightarrow> None | Some c \<Rightarrow> c k)"

section \<open>The completeness detector\<close>

text \<open>
  Modelled from the spec: \<^verbatim>\<open>isMxCellXmlComplete\<close> is imported from \<^verbatim>\<open>@/lib/utils\<close>,
  which is not among the sources. The model is the scan of section 4.2 of the
  specification: from left to right, keeping (a) whether the scanner is inside a
  quoted attribute value, (b) whether it is inside an angle bracket, and (c) the depth
  of open start tags that were not self-closed. A tag that starts with a slash
  closes an element, one that ends with a slash is self-closed, any other opens one.
  Inside a quoted value every character but the closing quote is inert.
\<close>

record scan_state =
  in_quote :: "char option"
  in_tag :: bool
  closing_tag :: bool
  tag_start :: bool
  last_slash :: bool
  depth :: int

definition scan_init :: scan_state where
  "scan_init = \<lparr>in_quote = None, in_tag = False, closing_tag = False, tag_start = False,
                 last_slash = False, depth = 0\<rparr>"

definition is_quote_char :: "char \<Rightarrow> bool" where
  "is_quote_char c = (c = CHR 0x22 \<or> c = CHR 0x27)"

definition scan_char :: "scan_state \<Rightarrow> char \<Rightarrow> scan_state" where
  "scan_char st c =
     (case in_quote st of
        Some q \<Rightarrow> (if c = q then st\<lparr>in_quote := None, last_slash := False\<rparr> else st)
      | None \<Rightarrow>
          (if in_tag st then
             (if is_quote_char c then
                st\<lparr>in_quote := Some c, tag_start := False, last_slash := False\<rparr>
              else if c = CHR ''>'' then
                st\<lparr>in_tag := False,
                    depth := (if closing_tag st then depth st - 1
                              else if last_slash st then depth st
                              else depth st + 1)\<rparr>
              else if c = CHR ''/'' then
                (if tag_start st then st\<lparr>closing_tag := True, tag_start := False\<rparr>
                 else st\<lparr>last_slash := True\<rparr>)
              else st\<lparr>tag_start := False, last_slash := False\<rparr>)
           else
             (if c = CHR ''<'' then
                st\<lparr>in_tag := True, closing_tag := False, tag_start := True, last_slash := False\<rparr>
              else st)))"

definition scan :: "scan_state \<Rightarrow> string \<Rightarrow> scan_state" where
  "scan st s = foldl scan_char st s"

definition scan_accepts :: "scan_state \<Rightarrow> bool" where
  "scan_accepts st = (in_quote st = None \<and> \<not> in_tag st \<and> depth st = 0)"

text \<open>
  Modelled from the spec: the detector that stands for \<^verbatim>\<open>isMxCellXmlComplete\<close>, which
  is missing from the sources. A text is complete when the scan ends outside every
  quoted value, outside every angle bracket, and at depth zero.
\<close>

definition spec_isMxCellXmlComplete :: "string \<Rightarrow> bool" where
  "spec_isMxCellXmlComplete xml = scan_accepts (scan scan_init xml)"

section \<open>The patch engine\<close>

text \<open>
  Modelled from the spec: \<^verbatim>\<open>applyDiagramOperations\<close> is imported from \<^verbatim>\<open>@/lib/utils\<close>,
  which is not among the sources. The model is the patch engine of section 4.4 of the
  specification over the cell model of section 3. The tokenizer of section 4.1, which
  reads the payload of an operation, is a parameter \<open>parse\<close> (\<^const>\<open>None\<close> when the
  payload is a malformed fragment).
\<close>

datatype cell_kind = Vertex | Edge

record cell =
  cell_ident :: string
  kind :: cell_kind
  attributes :: "(string \<times> string) list"
  geometry :: "(string \<times> string) list option"
  parent :: string
  source :: "string option"
  target :: "string option"

type_synonym document = "cell list"

datatype operation =
    Add string string
  | Update string string
  | Delete string

datatype error_kind = MalformedFragment | DuplicateId | UnknownCell

type_synonym patch_error = "error_kind \<times> string"

definition cell_ids :: "document \<Rightarrow> string list" where
  "cell_ids doc = map cell_ident doc"

definition cell_exists :: "document \<Rightarrow> string \<Rightarrow> bool" where
  "cell_exists doc i = (i \<in> set (cell_ids doc))"

text \<open>
  A cell is drawn into a delete set when its parent is in the set, or when it is an
  edge whose source or target is in the set.
\<close>

definition drawn_in :: "string set \<Rightarrow> cell \<Rightarrow> bool" where
  "drawn_in S c =
     (parent c \<in> S \<or>
      (kind c = Edge \<and>
       ((case source c of None \<Rightarrow> False | Some i \<Rightarrow> i \<in> S) \<or>
        (case target c of None \<Rightarrow> False | Some i \<Rightarrow> i \<in> S))))"

text \<open>One round of the cascade: the ids that are not in the set yet and are drawn in.\<close>

definition cascade_round :: "document \<Rightarrow> string list \<Rightarrow> string list" where
  "cascade_round doc S =
     remdups (map cell_ident (filter (\<lambda>c. cell_ident c \<notin> set S \<and> drawn_in (set S) c) doc))"

lemma cascade_round_fresh:
  "set (cascade_round doc S) \<subseteq> set (cell_ids doc) - set S"
  by (auto simp: cascade_round_def cell_ids_def)

lemma cascade_round_decreases:
  assumes "cascade_round doc S \<noteq> []"
  shows "card (set (cell_ids doc) - set (S @ cascade_round doc S)) < card (set (cell_ids doc) - set S)"
proof -
  from assms obtain i where i: "i \<in> set (cascade_round doc S)"
    by (cases "cascade_round doc S") auto
  with cascade_round_fresh [of doc S] have "i \<in> set (cell_ids doc) - set S"
    by blast
  moreover from i have "i \<notin> set (cell_ids doc) - set (S @ cascade_round doc S)"
    by simp
  ultimately have "set (cell_ids doc) - set (S @ cascade_round doc S) \<subset> set (cell_ids doc) - set S"
    by auto
  then show ?thesis
    by (intro psubset_card_mono) auto
qed

text \<open>
  Modelled from the spec: the cascade of a delete inside \<^verbatim>\<open>applyDiagramOperations\<close>,
  which is missing from the sources. The fixed point: start from the given set, add
  what a round draws in, stop when a round adds nothing.
\<close>

function cascade_from :: "document \<Rightarrow> string list \<Rightarrow> string list" where
  "cascade_from doc S =
     (let new = cascade_round doc S
      in if new = [] then S else cascade_from doc (S @ new))"
  by pat_completeness auto
termination
  by (relation "measure (\<lambda>(doc, S). card (set (cell_ids doc) - set S))")
     (auto dest: cascade_round_decreases)

definition cascade :: "document \<Rightarrow> string \<Rightarrow> string list" where
  "cascade doc target_id = cascade_from doc [target_id]"

text \<open>
  Modelled from the spec: one operation of \<^verbatim>\<open>applyDiagramOperations\<close>, which is missing
  from the sources, evaluated against the working document; a delete computes its
  cascade against the document as it was at the start of the batch. The result is the
  error of the operation, or the working document after it.
\<close>

fun apply_operation ::
  "(string \<Rightarrow> cell option) \<Rightarrow> document \<Rightarrow> document \<Rightarrow> operation \<Rightarrow> patch_error + document" where
  "apply_operation parse snapshot working (Add i payload) =
     (if cell_exists working i then Inl (DuplicateId, i)
      else (case parse payload of
              None \<Rightarrow> Inl (MalformedFragment, i)
            | Some c \<Rightarrow> Inr (working @ [c])))"
| "apply_operation parse snapshot working (Update i payload) =
     (if \<not> cell_exists working i then Inl (UnknownCell, i)
      else (case parse payload of
              None \<Rightarrow> Inl (MalformedFragment, i)
            | Some c \<Rightarrow> Inr (map (\<lambda>x. if cell_ident x = i then c else x) working)))"
| "apply_operation parse snapshot working (Delete i) =
     (if \<not> cell_exists working i then Inl (UnknownCell, i)
      else Inr (filter (\<lambda>c. cell_ident c \<notin> set (cascade snapshot i)) working))"

text \<open>
  Modelled from the spec: the batch of \<^verbatim>\<open>applyDiagramOperations\<close>, which is missing from
  the sources, on a working copy: a failing operation leaves the working document as
  it is and adds its diagnostic; the operations after it are still evaluated.
\<close>

fun run_batch ::
  "(string \<Rightarrow> cell option) \<Rightarrow> document \<Rightarrow> operation list \<Rightarrow> document \<times> patch_error list
     \<Rightarrow> document \<times> patch_error list" where
  "run_batch parse snapshot [] acc = acc"
| "run_batch parse snapshot (op # ops) (working, errs) =
     (case apply_operation parse snapshot working op of
        Inl e \<Rightarrow> run_batch parse snapshot ops (working, errs @ [e])
      | Inr working' \<Rightarrow> run_batch parse snapshot ops (working', errs))"

text \<open>
  Modelled from the spec: \<open>apply(document, operations)\<close> of section 4.4, which stands
  for \<^verbatim>\<open>applyDiagramOperations\<close>, missing from the sources. It is atomic: with no error
  the new document is the result; with any error the original document is, with every
  diagnostic.
\<close>

definition spec_applyDiagramOperations ::
  "(string \<Rightarrow> cell option) \<Rightarrow> document \<Rightarrow> operation list \<Rightarrow> document \<times> patch_error list" where
  "spec_applyDiagramOperations parse doc ops =
     (case run_batch parse doc ops (doc, []) of
        (working, errs) \<Rightarrow> if errs = [] then (working, []) else (doc, errs))"

section \<open>Further notions used in the statements\<close>

text \<open>
  Events of the server that store nothing, and the time they let pass.
\<close>

fun no_store :: "server_event list \<Rightarrow> bool" where
  "no_store [] = True"
| "no_store (Store rnd extracted # evs) = False"
| "no_store (ev # evs) = no_store evs"

fun elapsed :: "server_event list \<Rightarrow> nat" where
  "elapsed [] = 0"
| "elapsed (Elapse ms # evs) = ms + elapsed evs"
| "elapsed (ev # evs) = elapsed evs"

text \<open>
  A delete set is closed when it holds every cell of the document that it draws in.
\<close>

definition closed_under_cascade :: "document \<Rightarrow> string set \<Rightarrow> bool" where
  "closed_under_cascade doc S = (\<forall>c \<in> set doc. drawn_in S c \<longrightarrow> cell_ident c \<in> S)"

text \<open>
  The working document of a batch after some of its operations.
\<close>

definition working_after :: "(string \<Rightarrow> cell option) \<Rightarrow> document \<Rightarrow> operation list \<Rightarrow> document" where
  "working_after parse doc ops = fst (run_batch parse doc ops (doc, []))"

text \<open>
  In every state the scan reaches, the quote that is open is a quote character.
\<close>

definition quote_ok :: "scan_state \<Rightarrow> bool" where
  "quote_ok st = (case in_quote st of None \<Rightarrow> True | Some q \<Rightarrow> is_quote_char q)"





declare cascade_from.simps [simp del]

section \<open>Runs of the assembler\<close>

text \<open>
  A generation as the assembler sees it: one call of display_diagram, then calls of
  append_diagram, each with its tool call id and its fragment.
\<close>

fun run_appends :: "deps \<Rightarrow> (string \<times> string) list \<Rightarrow> handler_state \<Rightarrow> handler_state" where
  "run_appends d [] st = st"
| "run_appends d ((toolCallId, xml) # cs) st = run_appends d cs (handleAppendDiagram d toolCallId xml st)"

text \<open>
  The continuation rounds that stay in accumulation: no fragment is a fresh start and
  the buffer is judged incomplete after each of them.
\<close>

fun all_incomplete :: "deps \<Rightarrow> string \<Rightarrow> (string \<times> string) list \<Rightarrow> bool" where
  "all_incomplete d buf [] = True"
| "all_incomplete d buf ((toolCallId, xml) # cs) =
     (\<not> isFreshStart xml \<and> \<not> isMxCellXmlComplete d (buf @ xml) \<and> all_incomplete d (buf @ xml) cs)"

text \<open>
  The signals such rounds return: each quotes the end of the buffer as it then is.
\<close>

fun resume_signals :: "string \<Rightarrow> (string \<times> string) list \<Rightarrow> tool_output list" where
  "resume_signals buf [] = []"
| "resume_signals buf ((toolCallId, xml) # cs) =
     OutputError ''append_diagram'' toolCallId (still_incomplete_text (slice_last 500 (buf @ xml)))
     # resume_signals (buf @ xml) cs"

text \<open>
  A pending buffer is one the detector judges incomplete: the buffer is empty, or an
  assembly is accumulating.
\<close>

definition buffer_pending :: "deps \<Rightarrow> handler_state \<Rightarrow> bool" where
  "buffer_pending d st = (partialXmlRef st = [] \<or> \<not> isMxCellXmlComplete d (partialXmlRef st))"

section \<open>Example data\<close>

text \<open>
  Modelled from the spec: \<^verbatim>\<open>wrapWithMxFile\<close> is imported from \<^verbatim>\<open>@/lib/utils\<close>, which
  is not among the sources. Section 4.5 of the specification has it wrap the flat
  cells with the two reserved scaffold ids. It is used in the examples only, and none
  of them depends on what the wrapper adds.
\<close>

definition example_wrap :: "string \<Rightarrow> string" where
  \<open>example_wrap xml =
     ''<mxfile><mxGraphModel><root><mxCell id="0"/><mxCell id="1" parent="0"/>''
     @ xml @ ''</root></mxGraphModel></mxfile>''\<close>

text \<open>
  The callbacks of the examples: the detector of the specification, a validation
  that accepts every document (or, for \<open>rejecting_deps\<close>, none), and a region
  store given by \<open>fetch\<close>.
\<close>

definition example_deps :: "(string \<Rightarrow> regions option) \<Rightarrow> deps" where
  "example_deps fetch =
     \<lparr>isMxCellXmlComplete = spec_isMxCellXmlComplete,
      wrapWithMxFile = example_wrap,
      onDisplayChart = (\<lambda>fullXml. None),
      onFetchChart = Inl ''no chart'',
      applyDiagramOperations = (\<lambda>xml ops. Inr (xml, [])),
      fetchCachedRegions = fetch\<rparr>"

definition quiet_deps :: deps where
  "quiet_deps = example_deps (\<lambda>cacheKey. None)"

definition rejecting_deps :: deps where
  "rejecting_deps = quiet_deps\<lparr>onDisplayChart := (\<lambda>fullXml. Some ''Invalid XML'')\<rparr>"

definition empty_state :: handler_state where
  "empty_state = \<lparr>partialXmlRef = [], editDiagramOriginalXmlRef = Map.empty, chartXMLRef = [],
                   displayCalls = [], toolOutputs = [], exportCalls = 0\<rparr>"

text \<open>
  A first fragment cut inside its tag, completed by the first continuation, and a
  second continuation sent after it.
\<close>

definition early_completion_run :: handler_state where
  "early_completion_run =
     run_appends quiet_deps [(''call-1'', ''/>''), (''call-2'', ''<b/>'')]
       (handleDisplayDiagram quiet_deps ''call-0'' ''<a'' empty_state)"

text \<open>
  A first fragment cut inside its tag and twelve continuations that do not close it.
\<close>

definition twelve_rounds :: handler_state where
  "twelve_rounds =
     run_appends quiet_deps (replicate 12 (''call'', ''a''))
       (handleDisplayDiagram quiet_deps ''call-0'' ''<mxCell id='' empty_state)"

text \<open>
  A region store with one cache key and one region, and one whose payload holds a
  replacement pattern (a dollar sign and a quote).
\<close>

definition example_store :: "string \<Rightarrow> regions option" where
  "example_store cacheKey =
     (if cacheKey = ''extract_17_k3x9'' then Some [''logo'' \<mapsto> ''data:image/png;base64,iVBOR'']
      else None)"


definition store_deps :: deps where
  "store_deps = example_deps example_store"

text \<open>
  Documents with one reference that resolves, with one that resolves and one that
  does not, and with one whose cache key is unknown.
\<close>

definition one_reference :: string where
  \<open>one_reference =
     ''<mxCell id="2" style="shape=image;image=data:cache/extract_17_k3x9/logo;" vertex="1" parent="1"/>''\<close>



text \<open>
  An edit whose operations fail, on a chart that is cached.
\<close>

definition failing_edit_deps :: deps where
  "failing_edit_deps =
     (example_deps (\<lambda>cacheKey. None))
       \<lparr>applyDiagramOperations :=
          (\<lambda>xml ops. Inr (xml, [\<lparr>err_type = ''update'', cellId = ''zz'', message = ''not found''\<rparr>,
                                 \<lparr>err_type = ''delete'', cellId = ''yy'', message = ''not found''\<rparr>]))\<rparr>"

definition chart_state :: handler_state where
  \<open>chart_state = empty_state\<lparr>chartXMLRef := ''<mxCell id="2"/>''\<rparr>\<close>

definition example_operations :: "diagram_operation list" where
  \<open>example_operations =
     [\<lparr>operation = OpUpdate, cell_id = ''zz'', new_xml = Some ''<mxCell id="zz" vertex="1" parent="1"/>''\<rparr>,
      \<lparr>operation = OpDelete, cell_id = ''yy'', new_xml = None\<rparr>]\<close>

text \<open>
  The document of the cascade example: a parent \<open>P\<close>, its child \<open>C\<close>, an edge \<open>E\<close>
  from \<open>C\<close> to \<open>X\<close>, and \<open>X\<close>; and a tokenizer that reads one payload.
\<close>

definition example_cell :: "string \<Rightarrow> string \<Rightarrow> cell" where
  "example_cell i p =
     \<lparr>cell_ident = i, kind = Vertex, attributes = [], geometry = None, parent = p,
      source = None, target = None\<rparr>"

definition example_edge :: "string \<Rightarrow> string \<Rightarrow> string \<Rightarrow> cell" where
  "example_edge i s t =
     \<lparr>cell_ident = i, kind = Edge, attributes = [], geometry = None, parent = ''1'',
      source = Some s, target = Some t\<rparr>"

definition example_document :: document where
  "example_document =
     [example_cell ''P'' ''1'', example_cell ''C'' ''P'', example_edge ''E'' ''C'' ''X'',
      example_cell ''X'' ''1'']"

definition example_parse :: "string \<Rightarrow> cell option" where
  \<open>example_parse payload =
     (if payload = ''<mxCell id="N" vertex="1" parent="1"/>'' then Some (example_cell ''N'' ''1'')
      else None)\<close>

text \<open>
  A cell cut inside its style, before a cache reference, and the rest of it; a cell
  without references cut in three.
\<close>

definition cut_first :: string where
  \<open>cut_first = ''<mxCell id="2" style="shape=image;''\<close>

definition cut_rest :: string where
  \<open>cut_rest = ''image=data:cache/extract_17_k3x9/logo;" vertex="1" parent="1"/>''\<close>

definition plain_first :: string where
  \<open>plain_first = ''<mxCell id="2" value="Start''\<close>

definition plain_mid :: string where
  \<open>plain_mid = ''" vertex="1"''\<close>

definition plain_last :: string where
  \<open>plain_last = '' parent="1"/>''\<close>

text \<open>
  A server on which one extraction has stored its regions.
\<close>

definition server_start :: server_state where
  "server_start = \<lparr>extractedRegionsCache = None, timers = [], clock = 5000\<rparr>"

definition stored_once :: server_state where
  "stored_once = store_regions ''k3x9'' [(''icon'', ''data:image/png;base64,iVBOR'')] server_start"

section \<open>Evaluation rules for the examples\<close>

lemmas detector_eval =
  spec_isMxCellXmlComplete_def scan_def scan_char_def scan_init_def scan_accepts_def
  is_quote_char_def

lemmas fresh_eval = isFreshStart_def trim_def startsWith_def is_js_space_def Let_def

lemmas deps_eval = quiet_deps_def rejecting_deps_def example_deps_def empty_state_def

section \<open>The handlers, step by step\<close>


lemma incomplete_step:
  "\<not> isFreshStart xml \<Longrightarrow> \<not> isMxCellXmlComplete d (partialXmlRef st @ xml) \<Longrightarrow>
   handleAppendDiagram d toolCallId xml st =
     st\<lparr>partialXmlRef := partialXmlRef st @ xml,
        toolOutputs := toolOutputs st @
        [OutputError ''append_diagram'' toolCallId
           (still_incomplete_text (slice_last 500 (partialXmlRef st @ xml)))]\<rparr>"
  by (simp add: handleAppendDiagram_def addToolOutput_def Let_def)

lemma complete_step:
  "\<not> isFreshStart xml \<Longrightarrow> isMxCellXmlComplete d (partialXmlRef st @ xml) \<Longrightarrow>
   partialXmlRef (handleAppendDiagram d toolCallId xml st) = [] \<and>
   displayCalls (handleAppendDiagram d toolCallId xml st) =
     displayCalls st @ [wrapWithMxFile d (partialXmlRef st @ xml)]"
  by (simp add: handleAppendDiagram_def addToolOutput_def Let_def split: option.splits)

lemma display_incomplete_step:
  "\<not> isMxCellXmlComplete d (resolve_cache_references (fetchCachedRegions d) xml) \<Longrightarrow>
   handleDisplayDiagram d i xml st =
     st\<lparr>partialXmlRef := resolve_cache_references (fetchCachedRegions d) xml,
        toolOutputs := toolOutputs st @
          [OutputError ''display_diagram'' i
             (truncated_text (slice_last 500 (resolve_cache_references (fetchCachedRegions d) xml)))]\<rparr>"
  by (simp add: handleDisplayDiagram_def addToolOutput_def Let_def)

lemma display_complete_step:
  "isMxCellXmlComplete d (resolve_cache_references (fetchCachedRegions d) xml) \<Longrightarrow>
   partialXmlRef (handleDisplayDiagram d i xml st) = [] \<and>
   displayCalls (handleDisplayDiagram d i xml st) =
     displayCalls st @ [wrapWithMxFile d (resolve_cache_references (fetchCachedRegions d) xml)]"
  by (simp add: handleDisplayDiagram_def addToolOutput_def Let_def split: option.splits)

lemma display_partial:
  "partialXmlRef (handleDisplayDiagram d i xml st) =
     (let r = resolve_cache_references (fetchCachedRegions d) xml
      in if isMxCellXmlComplete d r then [] else r)"
  by (simp add: handleDisplayDiagram_def addToolOutput_def Let_def split: option.splits)

lemma append_partial:
  "partialXmlRef (handleAppendDiagram d i xml st) =
     (if isFreshStart xml then partialXmlRef st
      else if isMxCellXmlComplete d (partialXmlRef st @ xml) then []
      else partialXmlRef st @ xml)"
  by (simp add: handleAppendDiagram_def addToolOutput_def Let_def split: option.splits)

lemma edit_partial:
  "partialXmlRef (handleEditDiagram d i ops st) = partialXmlRef st"
  by (simp add: handleEditDiagram_def addToolOutput_def delete_original_def Let_def
      split: option.splits sum.splits prod.splits)

lemma run_appends_append:
  "run_appends d (xs @ ys) st = run_appends d ys (run_appends d xs st)"
  by (induction xs arbitrary: st) auto

lemma run_appends_incomplete:
  "all_incomplete d (partialXmlRef st) cs \<Longrightarrow>
   run_appends d cs st =
     st\<lparr>partialXmlRef := partialXmlRef st @ concat (map snd cs),
        toolOutputs := toolOutputs st @ resume_signals (partialXmlRef st) cs\<rparr>"
proof (induction cs arbitrary: st)
  case Nil
  then show ?case by simp
next
  case (Cons c cs)
  obtain i xml where c: "c = (i, xml)" by (cases c)
  from Cons.prems c have fresh: "\<not> isFreshStart xml"
    and inc: "\<not> isMxCellXmlComplete d (partialXmlRef st @ xml)"
    and rest: "all_incomplete d (partialXmlRef st @ xml) cs"
    by simp_all
  let ?st1 = "handleAppendDiagram d i xml st"
  have st1: "?st1 = st\<lparr>partialXmlRef := partialXmlRef st @ xml,
        toolOutputs := toolOutputs st @
        [OutputError ''append_diagram'' i
           (still_incomplete_text (slice_last 500 (partialXmlRef st @ xml)))]\<rparr>"
    using fresh inc by (rule incomplete_step)
  have "all_incomplete d (partialXmlRef ?st1) cs"
    using rest by (simp add: st1)
  from Cons.IH [OF this] show ?case
    by (simp add: c st1)
qed

lemma quiet_resolve [simp]: "resolve_cache_references (\<lambda>cacheKey. None) xml = xml"
proof -
  have "fold (replace_cache_key (\<lambda>cacheKey. None) ms) ks x = x" for ms ks x
    by (induction ks) (auto simp: replace_cache_key_def)
  then show ?thesis by (simp add: resolve_cache_references_def Let_def)
qed

section \<open>Properties of the assembler\<close>

lemma buffer_pending_step:
  "buffer_pending d st \<Longrightarrow> buffer_pending d (handleToolCall d call st)"
  by (cases call)
     (auto simp: buffer_pending_def display_partial append_partial edit_partial Let_def)

lemma buffer_pending_fold:
  "buffer_pending d st \<Longrightarrow> buffer_pending d (fold (handleToolCall d) calls st)"
  by (induction calls arbitrary: st) (auto intro: buffer_pending_step)

text \<open>
  Claim C10. Whenever the detector judges the text complete, in display_diagram or
  in append_diagram, the pending buffer is empty afterwards, whatever the validation
  of the wrapped document answers (the callbacks \<open>d\<close> are arbitrary). Over any
  sequence of tool calls a buffer that is not empty is one the detector judges
  incomplete: it is not empty only while an assembly is accumulating.
\<close>

theorem buffer_reset_on_complete:
  "(isMxCellXmlComplete d (resolve_cache_references (fetchCachedRegions d) xml) \<longrightarrow>
      partialXmlRef (handleDisplayDiagram d i xml st) = []) \<and>
   (\<not> isFreshStart c \<and> isMxCellXmlComplete d (partialXmlRef st @ c) \<longrightarrow>
      partialXmlRef (handleAppendDiagram d j c st) = []) \<and>
   (buffer_pending d st \<longrightarrow> buffer_pending d (fold (handleToolCall d) calls st))"
  by (simp add: display_partial append_partial buffer_pending_fold)

theorem buffer_reset_on_complete_witness:
  "isMxCellXmlComplete rejecting_deps (resolve_cache_references (fetchCachedRegions rejecting_deps) ''<a/>'') \<and>
   partialXmlRef (handleDisplayDiagram rejecting_deps ''call-0'' ''<a/>'' (empty_state\<lparr>partialXmlRef := ''<a''\<rparr>)) = [] \<and>
   \<not> isFreshStart ''/>'' \<and>
   isMxCellXmlComplete rejecting_deps (''<a'' @ ''/>'') \<and>
   partialXmlRef (handleAppendDiagram rejecting_deps ''call-1'' ''/>'' (empty_state\<lparr>partialXmlRef := ''<a''\<rparr>)) = [] \<and>
   buffer_pending rejecting_deps (empty_state\<lparr>partialXmlRef := ''<a''\<rparr>) \<and>
   buffer_pending rejecting_deps
     (fold (handleToolCall rejecting_deps) [AppendDiagram ''call-1'' '' b='', DisplayDiagram ''call-2'' ''<c'']
        (empty_state\<lparr>partialXmlRef := ''<a''\<rparr>))"
proof -
  let ?st = "empty_state\<lparr>partialXmlRef := ''<a''\<rparr>"
  have h1: "isMxCellXmlComplete rejecting_deps (resolve_cache_references (fetchCachedRegions rejecting_deps) ''<a/>'')"
    by (simp add: deps_eval detector_eval)
  have h2: "\<not> isFreshStart ''/>''"
    by (simp add: fresh_eval)
  have h3: "isMxCellXmlComplete rejecting_deps (''<a'' @ ''/>'')"
    by (simp add: deps_eval detector_eval)
  have h4: "buffer_pending rejecting_deps ?st"
    by (simp add: buffer_pending_def deps_eval detector_eval)
  have p: "partialXmlRef ?st = ''<a''"
    by (simp add: empty_state_def)
  from buffer_reset_on_complete [of rejecting_deps "''<a/>''" "''call-0''" ?st "''/>''" "''call-1''"
      "[AppendDiagram ''call-1'' '' b='', DisplayDiagram ''call-2'' ''<c'']"]
  show ?thesis
    using h1 h2 h3 h4 by (simp add: p)
qed



text \<open>
  Claim C6, as the code has it. The assembler keeps no round counter: however many
  continuations leave the buffer incomplete, each is appended and answered by a
  resume signal, one per round, and nothing is displayed. There is no abandoned
  state.
\<close>

theorem no_round_bound:
  "all_incomplete d (partialXmlRef st) cs \<Longrightarrow>
   run_appends d cs st =
     st\<lparr>partialXmlRef := partialXmlRef st @ concat (map snd cs),
        toolOutputs := toolOutputs st @ resume_signals (partialXmlRef st) cs\<rparr> \<and>
   length (resume_signals (partialXmlRef st) cs) = length cs \<and>
   displayCalls (run_appends d cs st) = displayCalls st"
proof -
  assume a: "all_incomplete d (partialXmlRef st) cs"
  have "length (resume_signals b cs) = length cs" for b
    by (induction cs arbitrary: b) auto
  with run_appends_incomplete [OF a] show ?thesis by simp
qed

theorem no_round_bound_witness:
  "all_incomplete quiet_deps ''<a'' [(''call-1'', '' b''), (''call-2'', ''=''), (''call-3'', ''x'')] \<and>
   partialXmlRef
     (run_appends quiet_deps [(''call-1'', '' b''), (''call-2'', ''=''), (''call-3'', ''x'')]
        (empty_state\<lparr>partialXmlRef := ''<a''\<rparr>)) = ''<a b=x'' \<and>
   displayCalls
     (run_appends quiet_deps [(''call-1'', '' b''), (''call-2'', ''=''), (''call-3'', ''x'')]
        (empty_state\<lparr>partialXmlRef := ''<a''\<rparr>)) = []"
proof -
  let ?st = "empty_state\<lparr>partialXmlRef := ''<a''\<rparr>"
  have p: "partialXmlRef ?st = ''<a''"
    by (simp add: empty_state_def)
  have h: "all_incomplete quiet_deps (partialXmlRef ?st) [(''call-1'', '' b''), (''call-2'', ''=''), (''call-3'', ''x'')]"
    unfolding p by (simp add: deps_eval detector_eval fresh_eval)
  from no_round_bound [OF h] show ?thesis
    using h by (simp add: p empty_state_def)
qed

text \<open>
  Claim C6 as stated fails: after twelve rounds, beyond a bound on the order of ten,
  the assembler still accumulates and still answers with the resume signal.
\<close>

theorem twelve_rounds_counterexample:
  "partialXmlRef twelve_rounds = ''<mxCell id=aaaaaaaaaaaa'' \<and>
   length (toolOutputs twelve_rounds) = 13 \<and>
   last (toolOutputs twelve_rounds) =
     OutputError ''append_diagram'' ''call''
       (still_incomplete_text (slice_last 500 ''<mxCell id=aaaaaaaaaaaa'')) \<and>
   displayCalls twelve_rounds = []"
proof -
  let ?st0 = "handleDisplayDiagram quiet_deps ''call-0'' ''<mxCell id='' empty_state"
  have c: "\<not> isMxCellXmlComplete quiet_deps ''<mxCell id=''"
    by (simp add: quiet_deps_def example_deps_def
      spec_isMxCellXmlComplete_def scan_def scan_char_def scan_init_def scan_accepts_def
      is_quote_char_def)
  have st0: "partialXmlRef ?st0 = ''<mxCell id=''" "displayCalls ?st0 = []" "length (toolOutputs ?st0) = 1"
    using c by (simp_all add: handleDisplayDiagram_def quiet_deps_def example_deps_def
        empty_state_def addToolOutput_def Let_def)
  have a: "all_incomplete quiet_deps (partialXmlRef ?st0) (replicate 12 (''call'', ''a''))"
    unfolding st0
    by (simp add: quiet_deps_def example_deps_def numeral_eq_Suc
      spec_isMxCellXmlComplete_def scan_def scan_char_def scan_init_def scan_accepts_def
      is_quote_char_def isFreshStart_def trim_def startsWith_def is_js_space_def Let_def)
  show ?thesis
    unfolding twelve_rounds_def run_appends_incomplete [OF a] st0
    by (simp add: st0 numeral_eq_Suc)
qed

section \<open>Properties of the region store\<close>

lemma post_keeps_state: "snd (get_cached_regions_POST req st) = st"
  by (simp add: get_cached_regions_POST_def split: request.splits option.splits)

lemma requests_keep_state: "fold server_step (map Request reqs) st = st"
  by (induction reqs) (simp_all add: post_keeps_state)

lemma callbacks_other_key:
  "k \<notin> snd ` set due \<Longrightarrow>
   (case fold (\<lambda>(t, k'). timer_callback k') due cache of None \<Rightarrow> None | Some c \<Rightarrow> c k) =
   (case cache of None \<Rightarrow> None | Some c \<Rightarrow> c k)"
proof (induction due arbitrary: cache)
  case Nil
  then show ?case by simp
next
  case (Cons a due)
  obtain t k' where a: "a = (t, k')" by (cases a)
  from Cons.prems a have ne: "k' \<noteq> k" and rest: "k \<notin> snd ` set due"
    by auto
  have "(case timer_callback k' cache of None \<Rightarrow> None | Some c \<Rightarrow> c k) =
        (case cache of None \<Rightarrow> None | Some c \<Rightarrow> c k)"
    using ne by (cases cache) (simp_all add: timer_callback_def)
  with Cons.IH [OF rest, of "timer_callback k' cache"] show ?case
    by (simp add: a)
qed

lemma elapse_lookup_kept:
  assumes "\<forall>due. (due, k) \<in> set (timers st) \<longrightarrow> clock st + ms < due"
  shows "lookup_cache (elapse ms st) k = lookup_cache st k"
proof -
  let ?due = "filter (\<lambda>(t, k). t \<le> clock st + ms) (timers st)"
  have "k \<notin> snd ` set ?due"
    using assms by force
  from callbacks_other_key [OF this] show ?thesis
    by (simp add: lookup_cache_def elapse_def Let_def)
qed

lemma step_changes_only_by_timer:
  assumes "lookup_cache st k = Some m" and "lookup_cache (server_step ev st) k \<noteq> Some m"
  shows "(\<exists>ms due. ev = Elapse ms \<and> (due, k) \<in> set (timers st) \<and> due \<le> clock st + ms) \<or>
         (\<exists>rnd extracted. ev = Store rnd extracted \<and> k = new_cache_key (clock st) rnd)"
proof (cases ev)
  case (Request req)
  with assms show ?thesis by (simp add: post_keeps_state)
next
  case (Store rnd extracted)
  with assms show ?thesis
    by (auto simp: store_regions_def lookup_cache_def Let_def split: option.splits if_splits)
next
  case (Elapse ms)
  show ?thesis
  proof (rule ccontr)
    assume "\<not> ?thesis"
    with Elapse have "\<forall>due. (due, k) \<in> set (timers st) \<longrightarrow> clock st + ms < due"
      by (auto simp: not_le)
    from elapse_lookup_kept [OF this] assms Elapse show False by simp
  qed
qed

lemma entry_survives:
  assumes "lookup_cache st k = Some m"
    and "\<forall>due. (due, k) \<in> set (timers st) \<longrightarrow> T < due"
    and "no_store evs"
    and "clock st + elapsed evs \<le> T"
  shows "lookup_cache (fold server_step evs st) k = Some m"
  using assms
proof (induction evs arbitrary: st)
  case Nil
  then show ?case by simp
next
  case (Cons ev evs)
  show ?case
  proof (cases ev)
    case (Request req)
    with Cons.prems Cons.IH [of st] show ?thesis
      by (simp add: post_keeps_state)
  next
    case (Store rnd extracted)
    with Cons.prems show ?thesis by simp
  next
    case (Elapse ms)
    let ?st = "elapse ms st"
    from Cons.prems Elapse have b: "clock st + ms + elapsed evs \<le> T"
      by simp
    then have "\<forall>due. (due, k) \<in> set (timers st) \<longrightarrow> clock st + ms < due"
      using Cons.prems(2) by fastforce
    from elapse_lookup_kept [OF this] Cons.prems(1)
    have l: "lookup_cache ?st k = Some m" by simp
    have t: "\<forall>due. (due, k) \<in> set (timers ?st) \<longrightarrow> T < due"
      using Cons.prems(2) by (simp add: elapse_def Let_def)
    have c: "clock ?st + elapsed evs \<le> T"
      using b by (simp add: elapse_def Let_def)
    from Cons.prems Elapse have n: "no_store evs" by simp
    from Cons.IH [OF l t n c] Elapse show ?thesis by simp
  qed
qed

lemma store_lookup:
  "lookup_cache (store_regions rnd extracted st) (new_cache_key (clock st) rnd) =
     Some (region_mapping extracted)"
  by (simp add: store_regions_def lookup_cache_def Let_def)

lemma store_timers:
  "timers (store_regions rnd extracted st) =
     timers st @ [(clock st + ttl_ms, new_cache_key (clock st) rnd)]"
  by (simp add: store_regions_def Let_def)

lemma store_clock: "clock (store_regions rnd extracted st) = clock st"
  by (simp add: store_regions_def Let_def)

text \<open>
  Claim C9. A request to the get-cached-regions endpoint leaves the store as it is,
  so a read after any number of reads answers as the first; a step of the server
  removes or changes an entry only when it is time passing with a timer due for that
  key, or a store under that very key; the
  timer is the one scheduled at insertion, ten minutes on; and an entry stored under
  a key with no timer pending is still there, with the mapping stored, after any reads
  and any waits of less than ten minutes in all.
\<close>

theorem reads_never_remove:
  "snd (get_cached_regions_POST req st) = st \<and>
   fst (get_cached_regions_POST req (fold server_step (map Request reqs) st)) =
     fst (get_cached_regions_POST req st) \<and>
   (lookup_cache st k = Some m \<and> lookup_cache (server_step ev st) k \<noteq> Some m \<longrightarrow>
      (\<exists>ms due. ev = Elapse ms \<and> (due, k) \<in> set (timers st) \<and> due \<le> clock st + ms) \<or>
      (\<exists>rnd extracted. ev = Store rnd extracted \<and> k = new_cache_key (clock st) rnd)) \<and>
   timers (store_regions rnd extracted st) =
     timers st @ [(clock st + 10 * 60 * 1000, new_cache_key (clock st) rnd)] \<and>
   ((\<forall>due. (due, new_cache_key (clock st) rnd) \<notin> set (timers st)) \<and>
    no_store evs \<and> elapsed evs < 10 * 60 * 1000 \<longrightarrow>
      lookup_cache (fold server_step evs (store_regions rnd extracted st))
        (new_cache_key (clock st) rnd) = Some (region_mapping extracted))"
proof -
  have survive: "lookup_cache (fold server_step evs (store_regions rnd extracted st))
        (new_cache_key (clock st) rnd) = Some (region_mapping extracted)"
    if fresh: "\<forall>due. (due, new_cache_key (clock st) rnd) \<notin> set (timers st)"
      and ns: "no_store evs" and el: "elapsed evs < 10 * 60 * 1000"
  proof -
    let ?st = "store_regions rnd extracted st"
    let ?k = "new_cache_key (clock st) rnd"
    let ?T = "clock st + ttl_ms - 1"
    have t: "\<forall>due. (due, ?k) \<in> set (timers ?st) \<longrightarrow> ?T < due"
      using fresh by (auto simp: store_timers ttl_ms_def)
    have c: "clock ?st + elapsed evs \<le> ?T"
      using el by (simp add: store_clock ttl_ms_def)
    from entry_survives [OF store_lookup t ns c] show ?thesis .
  qed
  show ?thesis
    using survive step_changes_only_by_timer [of st k m ev]
    by (simp add: post_keeps_state requests_keep_state store_timers ttl_ms_def)
qed

theorem reads_never_remove_witness:
  "lookup_cache stored_once (new_cache_key 5000 ''k3x9'') =
     Some (region_mapping [(''icon'', ''data:image/png;base64,iVBOR'')]) \<and>
   lookup_cache (server_step (Elapse 600000) stored_once) (new_cache_key 5000 ''k3x9'') = None \<and>
   (\<exists>due. (due, new_cache_key 5000 ''k3x9'') \<in> set (timers stored_once) \<and>
      due \<le> clock stored_once + 600000) \<and>
   no_store [Request (CacheKeyString (new_cache_key 5000 ''k3x9'')), Elapse 599999,
             Request (CacheKeyString (new_cache_key 5000 ''k3x9''))] \<and>
   lookup_cache
     (fold server_step
        [Request (CacheKeyString (new_cache_key 5000 ''k3x9'')), Elapse 599999,
         Request (CacheKeyString (new_cache_key 5000 ''k3x9''))]
        stored_once)
     (new_cache_key 5000 ''k3x9'') =
     Some (region_mapping [(''icon'', ''data:image/png;base64,iVBOR'')])"
proof -
  let ?k = "new_cache_key 5000 ''k3x9''"
  let ?m = "region_mapping [(''icon'', ''data:image/png;base64,iVBOR'')]"
  let ?evs = "[Request (CacheKeyString ?k), Elapse 599999, Request (CacheKeyString ?k)]"
  have c: "clock server_start = 5000" and t: "timers server_start = []"
    by (simp_all add: server_start_def)
  have h1: "lookup_cache stored_once ?k = Some ?m"
    using store_lookup [of "''k3x9''" _ server_start] by (simp add: stored_once_def c)
  have h2: "lookup_cache (server_step (Elapse 600000) stored_once) ?k = None"
    by (simp add: stored_once_def store_regions_def server_start_def elapse_def Let_def
        lookup_cache_def timer_callback_def ttl_ms_def)
  have h3: "no_store ?evs" and h4: "elapsed ?evs < 10 * 60 * 1000"
    by simp_all
  note a = reads_never_remove [where st = stored_once and k = ?k and m = ?m
      and ev = "Elapse 600000", THEN conjunct2, THEN conjunct2, THEN conjunct1]
  note b = reads_never_remove [where st = server_start and rnd = "''k3x9''"
      and extracted = "[(''icon'', ''data:image/png;base64,iVBOR'')]" and evs = ?evs,
      THEN conjunct2, THEN conjunct2, THEN conjunct2, THEN conjunct2]
  from a h1 h2 have d: "(\<exists>ms due. Elapse 600000 = Elapse ms \<and> (due, ?k) \<in> set (timers stored_once) \<and>
       due \<le> clock stored_once + ms) \<or>
     (\<exists>rnd extracted. Elapse 600000 = Store rnd extracted \<and> ?k = new_cache_key (clock stored_once) rnd)"
    by simp
  then have e: "\<exists>due. (due, ?k) \<in> set (timers stored_once) \<and> due \<le> clock stored_once + 600000"
    by auto
  from b h3 h4 have f: "lookup_cache (fold server_step ?evs stored_once) ?k = Some ?m"
    by (simp add: c t stored_once_def)
  from h1 h2 h3 e f show ?thesis
    by blast
qed

section \<open>Properties of the completeness detector\<close>

lemma scan_append: "scan st (p @ s) = scan (scan st p) s"
  by (simp add: scan_def)

lemma scan_Cons: "scan st (c # s) = scan (scan_char st c) s"
  by (simp add: scan_def)

lemma scan_char_inert:
  "in_quote st = Some q \<Longrightarrow> c \<noteq> q \<Longrightarrow> scan_char st c = st"
  by (simp add: scan_char_def)

lemma quote_ok_char: "quote_ok st \<Longrightarrow> quote_ok (scan_char st c)"
  by (auto simp: quote_ok_def scan_char_def split: option.splits)

lemma quote_ok_scan: "quote_ok st \<Longrightarrow> quote_ok (scan st s)"
  unfolding scan_def by (induction s arbitrary: st) (auto intro: quote_ok_char)

lemma quote_ok_init: "quote_ok scan_init"
  by (simp add: quote_ok_def scan_init_def)

lemma inert_in_quote:
  assumes "in_quote (scan scan_init p) = Some q" and "\<not> is_quote_char c"
  shows "scan scan_init (p @ c # s) = scan scan_init (p @ s)"
proof -
  from quote_ok_scan [OF quote_ok_init, of p] assms(1) have "is_quote_char q"
    by (simp add: quote_ok_def)
  with assms(2) have "c \<noteq> q" by auto
  from scan_char_inert [OF assms(1) this] show ?thesis
    by (simp add: scan_append scan_Cons)
qed

text \<open>
  Claim C3. The detector is a total function (a fold over the characters), so it
  returns for every input. It answers complete exactly when the scan ends outside a
  quoted value, outside an angle bracket and at depth zero. An angle bracket or a
  slash inside a quoted value changes nothing: the text with it and the text without
  it get the same answer. The three examples of the specification come out as it
  says.
\<close>

theorem detector_complete_iff:
  \<open>(spec_isMxCellXmlComplete xml \<longleftrightarrow>
      in_quote (scan scan_init xml) = None \<and> \<not> in_tag (scan scan_init xml) \<and>
      depth (scan scan_init xml) = 0) \<and>
   (in_quote (scan scan_init p) \<noteq> None \<and> c \<in> {CHR ''>'', CHR ''<'', CHR ''/''} \<longrightarrow>
      spec_isMxCellXmlComplete (p @ c # s) = spec_isMxCellXmlComplete (p @ s)) \<and>
   spec_isMxCellXmlComplete ''<cell id="a" value="1>2" vertex="1" parent="1"/>'' \<and>
   spec_isMxCellXmlComplete ''<cell id="a" vertex="1" parent="1"/>'' \<and>
   \<not> spec_isMxCellXmlComplete ''<cell id="a" vertex="1" parent="1''\<close>
proof -
  have inert: "spec_isMxCellXmlComplete (p @ c # s) = spec_isMxCellXmlComplete (p @ s)"
    if "in_quote (scan scan_init p) \<noteq> None" and "c \<in> {CHR ''>'', CHR ''<'', CHR ''/''}"
  proof -
    from that obtain q where q: "in_quote (scan scan_init p) = Some q" by auto
    from that have "\<not> is_quote_char c" by (auto simp: is_quote_char_def)
    from inert_in_quote [OF q this] show ?thesis
      by (simp add: spec_isMxCellXmlComplete_def)
  qed
  have ex: \<open>spec_isMxCellXmlComplete ''<cell id="a" value="1>2" vertex="1" parent="1"/>''\<close>
    \<open>spec_isMxCellXmlComplete ''<cell id="a" vertex="1" parent="1"/>''\<close>
    \<open>\<not> spec_isMxCellXmlComplete ''<cell id="a" vertex="1" parent="1''\<close>
    by (simp_all add: detector_eval)
  show ?thesis
    using inert ex by (simp add: spec_isMxCellXmlComplete_def scan_accepts_def)
qed

theorem detector_complete_iff_witness:
  \<open>in_quote (scan scan_init ''<cell value="1'') \<noteq> None \<and>
   spec_isMxCellXmlComplete (''<cell value="1'' @ CHR ''>'' # ''2"/>'') \<and>
   spec_isMxCellXmlComplete (''<cell value="1'' @ ''2"/>'')\<close>
proof -
  have h: \<open>in_quote (scan scan_init ''<cell value="1'') \<noteq> None\<close>
    by (simp add: detector_eval)
  have e: \<open>spec_isMxCellXmlComplete (''<cell value="1'' @ ''2"/>'')\<close>
    by (simp add: detector_eval)
  note t = detector_complete_iff [where p = \<open>''<cell value="1''\<close> and c = "CHR ''>''"
      and s = \<open>''2"/>''\<close>, THEN conjunct2, THEN conjunct1]
  from t h have \<open>spec_isMxCellXmlComplete (''<cell value="1'' @ CHR ''>'' # ''2"/>'') =
      spec_isMxCellXmlComplete (''<cell value="1'' @ ''2"/>'')\<close>
    by simp
  with h e show ?thesis
    by simp
qed

section \<open>Properties of the patch engine\<close>

lemma drawn_in_mono: "S \<subseteq> T \<Longrightarrow> drawn_in S c \<Longrightarrow> drawn_in T c"
  by (auto simp: drawn_in_def split: option.splits)

lemma cascade_round_empty_iff:
  "cascade_round doc S = [] \<longleftrightarrow> closed_under_cascade doc (set S)"
  by (auto simp: cascade_round_def closed_under_cascade_def filter_empty_conv)

lemma cascade_round_drawn:
  "i \<in> set (cascade_round doc S) \<Longrightarrow> \<exists>c \<in> set doc. cell_ident c = i \<and> drawn_in (set S) c"
  by (auto simp: cascade_round_def)

lemma cascade_from_extends: "set S \<subseteq> set (cascade_from doc S)"
proof (induction doc S rule: cascade_from.induct)
  case (1 doc S)
  show ?case
  proof (cases "cascade_round doc S = []")
    case True
    then show ?thesis by (subst cascade_from.simps) simp
  next
    case False
    from 1 [OF refl False] show ?thesis
      using False by (subst cascade_from.simps) (simp add: Let_def)
  qed
qed

lemma cascade_from_closed: "closed_under_cascade doc (set (cascade_from doc S))"
proof (induction doc S rule: cascade_from.induct)
  case (1 doc S)
  show ?case
  proof (cases "cascade_round doc S = []")
    case True
    then show ?thesis
      by (subst cascade_from.simps) (simp add: cascade_round_empty_iff)
  next
    case False
    from 1 [OF refl False] show ?thesis
      using False by (subst cascade_from.simps) (simp add: Let_def)
  qed
qed

lemma cascade_from_least:
  "set S \<subseteq> T \<Longrightarrow> closed_under_cascade doc T \<Longrightarrow> set (cascade_from doc S) \<subseteq> T"
proof (induction doc S rule: cascade_from.induct)
  case (1 doc S)
  show ?case
  proof (cases "cascade_round doc S = []")
    case True
    with 1(2) show ?thesis by (subst cascade_from.simps) simp
  next
    case False
    have "set (cascade_round doc S) \<subseteq> T"
    proof
      fix i assume "i \<in> set (cascade_round doc S)"
      then obtain c where c: "c \<in> set doc" "cell_ident c = i" "drawn_in (set S) c"
        by (auto dest: cascade_round_drawn)
      from drawn_in_mono [OF 1(2) c(3)] c(1,2) 1(3) show "i \<in> T"
        by (auto simp: closed_under_cascade_def)
    qed
    with 1(2) have "set (S @ cascade_round doc S) \<subseteq> T" by simp
    from 1(1) [OF refl False this 1(3)] show ?thesis
      using False by (subst cascade_from.simps) (simp add: Let_def)
  qed
qed

lemma delete_alone:
  "cell_exists doc t \<Longrightarrow>
   spec_applyDiagramOperations parse doc [Delete t] =
     (filter (\<lambda>c. cell_ident c \<notin> set (cascade doc t)) doc, [])"
  by (simp add: spec_applyDiagramOperations_def)

lemmas cascade_eval =
  cascade_def cascade_round_def drawn_in_def example_document_def example_cell_def
  example_edge_def Let_def

lemma example_cascade: "cascade example_document ''P'' = [''P'', ''C'', ''E'']"
proof -
  have r1: "cascade_round example_document [''P''] = [''C'']"
    by (simp add: cascade_eval)
  have r2: "cascade_round example_document [''P'', ''C''] = [''E'']"
    by (simp add: cascade_eval)
  have r3: "cascade_round example_document [''P'', ''C'', ''E''] = []"
    by (simp add: cascade_eval)
  have "cascade_from example_document [''P'', ''C'', ''E''] = [''P'', ''C'', ''E'']"
    by (subst cascade_from.simps) (simp add: r3)
  then have "cascade_from example_document [''P'', ''C''] = [''P'', ''C'', ''E'']"
    by (subst cascade_from.simps) (simp add: r2)
  then have "cascade_from example_document [''P''] = [''P'', ''C'', ''E'']"
    by (subst cascade_from.simps) (simp add: r1)
  then show ?thesis by (simp add: cascade_def)
qed

text \<open>
  Claim C2. For a delete whose target exists, the set removed is the least set that
  holds the target and is closed under drawing in the cells whose parent is in the
  set and the edges whose source or target is in the set; the batch of that one
  delete removes exactly the cells with an id in it. In the example, deleting \<open>P\<close>
  removes \<open>P\<close>, \<open>C\<close> and \<open>E\<close> and leaves \<open>X\<close>.
\<close>

theorem cascade_least_fixed_point:
  "(cell_exists doc t \<longrightarrow>
      t \<in> set (cascade doc t) \<and>
      closed_under_cascade doc (set (cascade doc t)) \<and>
      (\<forall>S. t \<in> S \<and> closed_under_cascade doc S \<longrightarrow> set (cascade doc t) \<subseteq> S) \<and>
      spec_applyDiagramOperations parse doc [Delete t] =
        (filter (\<lambda>c. cell_ident c \<notin> set (cascade doc t)) doc, [])) \<and>
   set (cascade example_document ''P'') = {''P'', ''C'', ''E''} \<and>
   spec_applyDiagramOperations parse example_document [Delete ''P''] =
     ([example_cell ''X'' ''1''], [])"
proof -
  have "t \<in> set (cascade doc t)"
    using cascade_from_extends [of "[t]" doc] by (simp add: cascade_def)
  moreover have "closed_under_cascade doc (set (cascade doc t))"
    by (simp add: cascade_def cascade_from_closed)
  moreover have "\<forall>S. t \<in> S \<and> closed_under_cascade doc S \<longrightarrow> set (cascade doc t) \<subseteq> S"
    using cascade_from_least [of "[t]" _ doc] by (simp add: cascade_def)
  moreover have "set (cascade example_document ''P'') = {''P'', ''C'', ''E''}"
    by (simp add: example_cascade)
  moreover have "cell_exists example_document ''P''"
    by (simp add: cell_exists_def cell_ids_def example_document_def example_cell_def)
  from delete_alone [OF this, of parse]
  have "spec_applyDiagramOperations parse example_document [Delete ''P''] =
     ([example_cell ''X'' ''1''], [])"
    by (simp add: example_cascade) (simp add: example_document_def example_cell_def example_edge_def)
  ultimately show ?thesis
    using delete_alone [of doc t parse] by simp
qed

theorem cascade_least_fixed_point_witness:
  "cell_exists example_document ''C'' \<and>
   ''C'' \<in> set (cascade example_document ''C'') \<and>
   closed_under_cascade example_document (set (cascade example_document ''C'')) \<and>
   ''C'' \<in> {''C'', ''E'', ''Z''} \<and> closed_under_cascade example_document {''C'', ''E'', ''Z''} \<and>
   set (cascade example_document ''C'') \<subseteq> {''C'', ''E'', ''Z''}"
proof -
  have h: "cell_exists example_document ''C''"
    by (simp add: cell_exists_def cell_ids_def example_document_def example_cell_def example_edge_def)
  have c: "closed_under_cascade example_document {''C'', ''E'', ''Z''}"
    by (simp add: closed_under_cascade_def cascade_eval)
  note t = cascade_least_fixed_point [where doc = example_document and t = "''C''", THEN conjunct1, rule_format, OF h]
  from t have l: "set (cascade example_document ''C'') \<subseteq> {''C'', ''E'', ''Z''}"
    using c by blast
  from t h c l show ?thesis by simp
qed

lemma run_batch_errors:
  "run_batch parse snap ops (w, errs) =
     (fst (run_batch parse snap ops (w, [])), errs @ snd (run_batch parse snap ops (w, [])))"
proof (induction ops arbitrary: w errs)
  case Nil
  then show ?case by simp
next
  case (Cons op ops)
  show ?case
  proof (cases "apply_operation parse snap w op")
    case (Inl e)
    with Cons.IH [of w "errs @ [e]"] Cons.IH [of w "[e]"] show ?thesis by simp
  next
    case (Inr w')
    with Cons.IH [of w' errs] show ?thesis by simp
  qed
qed

lemma run_batch_append:
  "run_batch parse snap (xs @ ys) acc = run_batch parse snap ys (run_batch parse snap xs acc)"
proof (induction xs arbitrary: acc)
  case Nil
  then show ?case by simp
next
  case (Cons op xs)
  obtain w errs where acc: "acc = (w, errs)" by (cases acc)
  show ?case
    by (cases "apply_operation parse snap w op") (simp_all add: acc Cons.IH)
qed

lemma spec_apply_errors:
  "snd (spec_applyDiagramOperations parse doc ops) = snd (run_batch parse doc ops (doc, []))"
  by (simp add: spec_applyDiagramOperations_def split: prod.splits)

lemma spec_apply_atomic:
  "snd (spec_applyDiagramOperations parse doc ops) \<noteq> [] \<Longrightarrow>
   fst (spec_applyDiagramOperations parse doc ops) = doc"
  by (simp add: spec_applyDiagramOperations_def split: prod.splits if_splits)

lemma spec_apply_snoc:
  "snd (spec_applyDiagramOperations parse doc (ops @ [op])) =
     snd (spec_applyDiagramOperations parse doc ops) @
     (case apply_operation parse doc (working_after parse doc ops) op of
        Inl e \<Rightarrow> [e] | Inr w \<Rightarrow> [])"
proof -
  obtain w errs where r: "run_batch parse doc ops (doc, []) = (w, errs)"
    by (cases "run_batch parse doc ops (doc, [])")
  show ?thesis
    by (cases "apply_operation parse doc w op")
       (simp_all add: spec_apply_errors run_batch_append r working_after_def)
qed

lemma add_then_unknown_update:
  assumes "\<not> cell_exists doc i" and "parse p = Some c"
    and "\<not> cell_exists doc j" and "j \<noteq> cell_ident c"
  shows "spec_applyDiagramOperations parse doc [Add i p, Update j q] = (doc, [(UnknownCell, j)])"
  using assms by (simp add: spec_applyDiagramOperations_def cell_exists_def cell_ids_def)

lemma edit_errors_step:
  assumes "current_xml d toolCallId st = Inr currentXml"
    and "applyDiagramOperations d currentXml ops = Inr (editedXml, errors)"
    and "errors \<noteq> []"
  shows "handleEditDiagram d toolCallId ops st =
           delete_original toolCallId
             (addToolOutput
                (OutputError ''edit_diagram'' toolCallId (operations_failed_text errors currentXml))
                st)"
  using assms by (simp add: handleEditDiagram_def)

text \<open>
  Claim C1. When the batch has errors, \<^verbatim>\<open>handleEditDiagram\<close> displays nothing, exports
  nothing, leaves the chart reference and the buffer as they were and returns one
  error output that lists every error and quotes the document as it was before the
  call (the callbacks \<open>d\<close>, \<^verbatim>\<open>applyDiagramOperations\<close> among them, are arbitrary). In the
  engine of the specification,
  a batch with any error returns the original document; each operation adds at most
  one diagnostic, in order, and the operations after a failing one are still
  evaluated; and a batch of an add that succeeds and an update of an unknown id
  returns the original document and exactly one \<open>UnknownCell\<close> error.
\<close>

theorem edit_batch_atomic:
  "(current_xml d toolCallId st = Inr currentXml \<and>
    applyDiagramOperations d currentXml ops = Inr (editedXml, errors) \<and> errors \<noteq> [] \<longrightarrow>
      displayCalls (handleEditDiagram d toolCallId ops st) = displayCalls st \<and>
      chartXMLRef (handleEditDiagram d toolCallId ops st) = chartXMLRef st \<and>
      exportCalls (handleEditDiagram d toolCallId ops st) = exportCalls st \<and>
      partialXmlRef (handleEditDiagram d toolCallId ops st) = partialXmlRef st \<and>
      toolOutputs (handleEditDiagram d toolCallId ops st) =
        toolOutputs st @
        [OutputError ''edit_diagram'' toolCallId (operations_failed_text errors currentXml)]) \<and>
   (snd (spec_applyDiagramOperations parse doc batch) \<noteq> [] \<longrightarrow>
      fst (spec_applyDiagramOperations parse doc batch) = doc) \<and>
   snd (spec_applyDiagramOperations parse doc (batch @ [op])) =
     snd (spec_applyDiagramOperations parse doc batch) @
     (case apply_operation parse doc (working_after parse doc batch) op of
        Inl e \<Rightarrow> [e] | Inr w \<Rightarrow> []) \<and>
   (\<not> cell_exists doc i \<and> parse p = Some c \<and> \<not> cell_exists doc j \<and> j \<noteq> cell_ident c \<longrightarrow>
      spec_applyDiagramOperations parse doc [Add i p, Update j q] = (doc, [(UnknownCell, j)]))"
proof -
  have a: "displayCalls (handleEditDiagram d toolCallId ops st) = displayCalls st \<and>
      chartXMLRef (handleEditDiagram d toolCallId ops st) = chartXMLRef st \<and>
      exportCalls (handleEditDiagram d toolCallId ops st) = exportCalls st \<and>
      partialXmlRef (handleEditDiagram d toolCallId ops st) = partialXmlRef st \<and>
      toolOutputs (handleEditDiagram d toolCallId ops st) =
        toolOutputs st @
        [OutputError ''edit_diagram'' toolCallId (operations_failed_text errors currentXml)]"
    if "current_xml d toolCallId st = Inr currentXml"
      and "applyDiagramOperations d currentXml ops = Inr (editedXml, errors)"
      and "errors \<noteq> []"
    using edit_errors_step [OF that] by (simp add: delete_original_def addToolOutput_def)
  show ?thesis
    using a spec_apply_atomic [of parse doc batch] spec_apply_snoc [of parse doc batch op]
      add_then_unknown_update [of doc i parse p c j q]
    by blast
qed

theorem edit_batch_atomic_witness:
  \<open>current_xml failing_edit_deps ''call-7'' chart_state = Inr ''<mxCell id="2"/>'' \<and>
   displayCalls (handleEditDiagram failing_edit_deps ''call-7'' example_operations chart_state) = [] \<and>
   chartXMLRef (handleEditDiagram failing_edit_deps ''call-7'' example_operations chart_state) =
     ''<mxCell id="2"/>'' \<and>
   toolOutputs (handleEditDiagram failing_edit_deps ''call-7'' example_operations chart_state) =
     [OutputError ''edit_diagram'' ''call-7''
        (operations_failed_text
           [\<lparr>err_type = ''update'', cellId = ''zz'', message = ''not found''\<rparr>,
            \<lparr>err_type = ''delete'', cellId = ''yy'', message = ''not found''\<rparr>]
           ''<mxCell id="2"/>'')] \<and>
   \<not> cell_exists example_document ''N'' \<and> \<not> cell_exists example_document ''zz'' \<and>
   spec_applyDiagramOperations example_parse example_document
     [Add ''N'' ''<mxCell id="N" vertex="1" parent="1"/>'', Update ''zz'' ''<mxCell id="zz"/>''] =
     (example_document, [(UnknownCell, ''zz'')]) \<and>
   spec_applyDiagramOperations example_parse example_document
     ([Update ''zz'' ''<mxCell id="zz"/>''] @ [Delete ''yy'']) =
     (example_document, [(UnknownCell, ''zz''), (UnknownCell, ''yy'')])\<close>
proof -
  let ?e = "[\<lparr>err_type = ''update'', cellId = ''zz'', message = ''not found''\<rparr>,
            \<lparr>err_type = ''delete'', cellId = ''yy'', message = ''not found''\<rparr>]"
  have h1: \<open>current_xml failing_edit_deps ''call-7'' chart_state = Inr ''<mxCell id="2"/>''\<close>
    by (simp add: current_xml_def chart_state_def empty_state_def truthy_string_def)
  have h2: \<open>applyDiagramOperations failing_edit_deps ''<mxCell id="2"/>'' example_operations =
      Inr (''<mxCell id="2"/>'', ?e)\<close>
    by (simp add: failing_edit_deps_def example_deps_def)
  have h3: "?e \<noteq> []" by simp
  have ids: "cell_ids example_document = [''P'', ''C'', ''E'', ''X'']"
    by (simp add: cell_ids_def example_document_def example_cell_def example_edge_def)
  have h4: "\<not> cell_exists example_document ''N''" "\<not> cell_exists example_document ''zz''"
    "\<not> cell_exists example_document ''yy''"
    by (simp_all add: cell_exists_def ids)
  have h5: \<open>example_parse ''<mxCell id="N" vertex="1" parent="1"/>'' = Some (example_cell ''N'' ''1'')\<close>
    by (simp add: example_parse_def)
  have h6: "''zz'' \<noteq> cell_ident (example_cell ''N'' ''1'')"
    by (simp add: example_cell_def)
  have st: "displayCalls chart_state = []" "toolOutputs chart_state = []"
    \<open>chartXMLRef chart_state = ''<mxCell id="2"/>''\<close>
    by (simp_all add: chart_state_def empty_state_def)
  note a = edit_batch_atomic [where d = failing_edit_deps and toolCallId = "''call-7''"
      and st = chart_state and ops = example_operations, THEN conjunct1, rule_format,
      OF conjI [OF h1 conjI [OF h2 h3]]]
  note b = edit_batch_atomic [where parse = example_parse and doc = example_document
      and i = "''N''" and j = "''zz''", THEN conjunct2, THEN conjunct2, THEN conjunct2, rule_format,
      OF conjI [OF h4(1) conjI [OF h5 conjI [OF h4(2) h6]]]]
  have w: \<open>working_after example_parse example_document [Update ''zz'' ''<mxCell id="zz"/>''] = example_document\<close>
    using h4 by (simp add: working_after_def)
  have e1: \<open>spec_applyDiagramOperations example_parse example_document [Update ''zz'' ''<mxCell id="zz"/>''] =
      (example_document, [(UnknownCell, ''zz'')])\<close>
    using h4 by (simp add: spec_applyDiagramOperations_def)
  note c = edit_batch_atomic [where parse = example_parse and doc = example_document
      and batch = \<open>[Update ''zz'' ''<mxCell id="zz"/>'']\<close> and op = "Delete ''yy''",
      THEN conjunct2, THEN conjunct2, THEN conjunct1]
  note d = edit_batch_atomic [where parse = example_parse and doc = example_document
      and batch = \<open>[Update ''zz'' ''<mxCell id="zz"/>''] @ [Delete ''yy'']\<close>,
      THEN conjunct2, THEN conjunct1, rule_format]
  from c have s: \<open>snd (spec_applyDiagramOperations example_parse example_document
       ([Update ''zz'' ''<mxCell id="zz"/>''] @ [Delete ''yy''])) = [(UnknownCell, ''zz''), (UnknownCell, ''yy'')]\<close>
    using h4 by (simp add: w e1)
  with d have f: \<open>fst (spec_applyDiagramOperations example_parse example_document
       ([Update ''zz'' ''<mxCell id="zz"/>''] @ [Delete ''yy''])) = example_document\<close>
    by simp
  from s f have e2: \<open>spec_applyDiagramOperations example_parse example_document
     ([Update ''zz'' ''<mxCell id="zz"/>''] @ [Delete ''yy'']) =
     (example_document, [(UnknownCell, ''zz''), (UnknownCell, ''yy'')])\<close>
    by (simp add: prod_eq_iff)
  from a b e2 h1 h4 show ?thesis
    by (simp add: st)
qed

section \<open>Properties of the cache references\<close>































lemmas resolve_eval =
  resolve_cache_references_def replace_cache_key_def replace_match_def truthy_region_def
  get_member_def object_prototype_members_def
  js_replace_def searchStr_def cache_prefix_def encode_semicolons_def new_Set_def
  cache_match_at_def is_name_char_def is_js_space_def Let_def

lemma one_reference_matches: "matchAll one_reference = [(''extract_17_k3x9'', ''logo'')]"
  by (simp add: one_reference_def cache_match_at_def cache_prefix_def is_name_char_def
      is_js_space_def Let_def)










section \<open>The assembler and the direct path\<close>

lemma cache_match_at_extends:
  assumes "cache_match_at p \<noteq> None"
  shows "cache_match_at (p @ s) \<noteq> None"
proof -
  define t where "t = drop (length cache_prefix) p"
  define t' where "t' = dropWhile (\<lambda>c. c \<noteq> CHR ''/'') t"
  from assms have pre: "prefix cache_prefix p"
    by (auto simp: cache_match_at_def split: if_splits)
  from assms pre have key: "takeWhile (\<lambda>c. c \<noteq> CHR ''/'') t \<noteq> []" and ne: "t' \<noteq> []"
    and name: "takeWhile is_name_char (tl t') \<noteq> []"
    by (auto simp: cache_match_at_def Let_def t_def t'_def split: if_splits)
  from pre have len: "length cache_prefix \<le> length p"
    by (rule prefix_length_le)
  have pre': "prefix cache_prefix (p @ s)"
    using pre by (rule prefix_prefix)
  have d: "drop (length cache_prefix) (p @ s) = t @ s"
    using len by (simp add: t_def)
  from ne obtain x where x: "x \<in> set t" "\<not> x \<noteq> CHR ''/''"
    by (auto simp: t'_def dropWhile_eq_Nil_conv)
  have tk: "takeWhile (\<lambda>c. c \<noteq> CHR ''/'') (t @ s) = takeWhile (\<lambda>c. c \<noteq> CHR ''/'') t"
    using x by (intro takeWhile_append1) auto
  have dk: "dropWhile (\<lambda>c. c \<noteq> CHR ''/'') (t @ s) = t' @ s"
    unfolding t'_def using x by (intro dropWhile_append1) auto
  have tl: "tl (t' @ s) = tl t' @ s"
    using ne by simp
  from name obtain y ys where y: "tl t' = y # ys" "is_name_char y"
    by (cases "tl t'") (auto split: if_splits)
  then have nm: "takeWhile is_name_char (tl t' @ s) \<noteq> []"
    by simp
  have "cache_match_at (p @ s) =
      Some (takeWhile (\<lambda>c. c \<noteq> CHR ''/'') t, takeWhile is_name_char (tl t' @ s),
            dropWhile is_name_char (tl t' @ s))"
    unfolding cache_match_at_def Let_def d tk dk tl
    using pre' key ne nm by simp
  then show ?thesis by simp
qed

lemma matchAll_prefix_empty: "matchAll (p @ s) = [] \<Longrightarrow> matchAll p = []"
proof (induction p)
  case Nil
  then show ?case by simp
next
  case (Cons c cs)
  from Cons.prems have none: "cache_match_at ((c # cs) @ s) = None" and rest: "matchAll (cs @ s) = []"
    by (auto split: option.splits)
  have "cache_match_at (c # cs) = None"
  proof (rule ccontr)
    assume "cache_match_at (c # cs) \<noteq> None"
    from cache_match_at_extends [OF this, of s] none show False by simp
  qed
  with Cons.IH [OF rest] show ?case by simp
qed

lemma no_references_resolve: "matchAll xml = [] \<Longrightarrow> resolve_cache_references fetch xml = xml"
  by (simp add: resolve_cache_references_def new_Set_def)

lemma no_references_append:
  "matchAll (p @ s) = [] \<Longrightarrow>
   resolve_cache_references fetch (p @ s) = resolve_cache_references fetch p @ s"
  using matchAll_prefix_empty [of p s] by (simp add: no_references_resolve)

lemmas match_eval = cache_match_at_def cache_prefix_def is_name_char_def is_js_space_def Let_def

lemma store_deps_fields:
  "fetchCachedRegions store_deps = example_store"
  "wrapWithMxFile store_deps = example_wrap"
  "onDisplayChart store_deps = (\<lambda>fullXml. None)"
  "isMxCellXmlComplete store_deps = spec_isMxCellXmlComplete"
  by (simp_all add: store_deps_def example_deps_def)

lemmas plain_eval = plain_first_def plain_mid_def plain_last_def

text \<open>
  Claim C4, as the code has it. When the first fragment and every accumulation before
  the last continuation are judged incomplete, no continuation is a fresh start, the
  whole text is judged complete, and resolving the cache references of the whole text
  gives the same as resolving those of the first fragment alone (as it does when the
  whole text has no cache reference, by \<open>no_references_append\<close>), the assembler
  displays exactly one document: the one that display_diagram displays for the
  concatenated text. Both leave the buffer empty.
\<close>

theorem assembly_equals_direct:
  assumes first: "\<not> isMxCellXmlComplete d (resolve_cache_references (fetchCachedRegions d) f0)"
    and mid: "all_incomplete d (resolve_cache_references (fetchCachedRegions d) f0) cs"
    and fresh: "\<not> isFreshStart c"
    and whole: "isMxCellXmlComplete d
                  (resolve_cache_references (fetchCachedRegions d) f0 @ concat (map snd cs) @ c)"
    and res: "resolve_cache_references (fetchCachedRegions d) (f0 @ concat (map snd cs) @ c) =
                resolve_cache_references (fetchCachedRegions d) f0 @ concat (map snd cs) @ c"
  shows "displayCalls (run_appends d (cs @ [(j, c)]) (handleDisplayDiagram d i f0 st)) =
           displayCalls st @ [wrapWithMxFile d
              (resolve_cache_references (fetchCachedRegions d) (f0 @ concat (map snd cs) @ c))] \<and>
         displayCalls (run_appends d (cs @ [(j, c)]) (handleDisplayDiagram d i f0 st)) =
           displayCalls (handleDisplayDiagram d i' (f0 @ concat (map snd cs) @ c) st) \<and>
         partialXmlRef (run_appends d (cs @ [(j, c)]) (handleDisplayDiagram d i f0 st)) = [] \<and>
         partialXmlRef (handleDisplayDiagram d i' (f0 @ concat (map snd cs) @ c) st) = []"
proof -
  let ?r0 = "resolve_cache_references (fetchCachedRegions d) f0"
  let ?st0 = "handleDisplayDiagram d i f0 st"
  have st0: "partialXmlRef ?st0 = ?r0" "displayCalls ?st0 = displayCalls st"
    using first by (simp_all add: display_incomplete_step)
  let ?st1 = "run_appends d cs ?st0"
  have "all_incomplete d (partialXmlRef ?st0) cs"
    using mid by (simp add: st0)
  from run_appends_incomplete [OF this]
  have st1: "partialXmlRef ?st1 = ?r0 @ concat (map snd cs)" "displayCalls ?st1 = displayCalls st"
    by (simp_all add: st0)
  have last: "isMxCellXmlComplete d (partialXmlRef ?st1 @ c)"
    using whole by (simp add: st1)
  have asm: "run_appends d (cs @ [(j, c)]) ?st0 = handleAppendDiagram d j c ?st1"
    by (simp add: run_appends_append)
  have direct: "isMxCellXmlComplete d
     (resolve_cache_references (fetchCachedRegions d) (f0 @ concat (map snd cs) @ c))"
    using whole by (simp add: res)
  show ?thesis
    using complete_step [OF fresh last, of j] display_complete_step [OF direct, of i' st]
    by (simp add: asm st1 res)
qed

theorem assembly_equals_direct_witness:
  "\<not> isMxCellXmlComplete store_deps (resolve_cache_references (fetchCachedRegions store_deps) plain_first) \<and>
   all_incomplete store_deps (resolve_cache_references (fetchCachedRegions store_deps) plain_first)
     [(''call-1'', plain_mid)] \<and>
   \<not> isFreshStart plain_last \<and>
   isMxCellXmlComplete store_deps (plain_first @ plain_mid @ plain_last) \<and>
   displayCalls
     (run_appends store_deps ([(''call-1'', plain_mid)] @ [(''call-2'', plain_last)])
        (handleDisplayDiagram store_deps ''call-0'' plain_first empty_state)) =
     [example_wrap (plain_first @ plain_mid @ plain_last)] \<and>
   displayCalls
     (handleDisplayDiagram store_deps ''call-0'' (plain_first @ plain_mid @ plain_last) empty_state) =
     [example_wrap (plain_first @ plain_mid @ plain_last)]"
proof -
  let ?cs = "[(''call-1'', plain_mid)]"
  have m: "matchAll (plain_first @ concat (map snd ?cs) @ plain_last) = []"
    by (simp add: plain_eval match_eval)
  have r0: "resolve_cache_references (fetchCachedRegions store_deps) plain_first = plain_first"
    using matchAll_prefix_empty [OF m] by (simp add: no_references_resolve)
  have h1: "\<not> isMxCellXmlComplete store_deps
      (resolve_cache_references (fetchCachedRegions store_deps) plain_first)"
    unfolding r0 by (simp add: store_deps_fields plain_eval detector_eval)
  have h2: "all_incomplete store_deps
      (resolve_cache_references (fetchCachedRegions store_deps) plain_first) ?cs"
    unfolding r0 by (simp add: store_deps_fields plain_eval detector_eval fresh_eval)
  have h3: "\<not> isFreshStart plain_last"
    by (simp add: plain_eval fresh_eval)
  have h4: "isMxCellXmlComplete store_deps
     (resolve_cache_references (fetchCachedRegions store_deps) plain_first @
      concat (map snd ?cs) @ plain_last)"
    unfolding r0 by (simp add: store_deps_fields plain_eval detector_eval)
  have h5: "resolve_cache_references (fetchCachedRegions store_deps)
       (plain_first @ concat (map snd ?cs) @ plain_last) =
     resolve_cache_references (fetchCachedRegions store_deps) plain_first @
     concat (map snd ?cs) @ plain_last"
    using m by (rule no_references_append)
  have e: "displayCalls empty_state = []"
    by (simp add: empty_state_def)
  from assembly_equals_direct [OF h1 h2 h3 h4 h5, of "''call-2''" "''call-0''" empty_state "''call-0''"]
    h1 h2 h3 h4 h5
  show ?thesis
    by (auto simp add: r0 e store_deps_fields(2))
qed

text \<open>
  Claim C4 as stated fails in two ways. When an accumulation before the last
  continuation is already complete, the assembler displays that shorter document and
  starts over, so two documents are displayed and neither is the document of the
  concatenated text. And a cache reference that arrives in a continuation is not
  resolved, while display_diagram resolves it in the concatenated text.
\<close>

theorem early_completion_counterexample:
  \<open>\<not> spec_isMxCellXmlComplete ''<a'' \<and>
   \<not> isFreshStart ''/>'' \<and> \<not> isFreshStart ''<b/>'' \<and>
   spec_isMxCellXmlComplete (''<a'' @ ''/>'' @ ''<b/>'') \<and>
   displayCalls early_completion_run = [example_wrap ''<a/>'', example_wrap ''<b/>''] \<and>
   displayCalls (handleDisplayDiagram quiet_deps ''call-0'' (''<a'' @ ''/>'' @ ''<b/>'') empty_state) =
     [example_wrap ''<a/><b/>''] \<and>
   \<not> spec_isMxCellXmlComplete cut_first \<and> \<not> isFreshStart cut_rest \<and>
   spec_isMxCellXmlComplete (cut_first @ cut_rest) \<and>
   displayCalls
     (run_appends store_deps [(''call-1'', cut_rest)]
        (handleDisplayDiagram store_deps ''call-0'' cut_first empty_state)) =
     [example_wrap
        ''<mxCell id="2" style="shape=image;image=data:cache/extract_17_k3x9/logo;" vertex="1" parent="1"/>''] \<and>
   displayCalls (handleDisplayDiagram store_deps ''call-0'' (cut_first @ cut_rest) empty_state) =
     [example_wrap
        ''<mxCell id="2" style="shape=image;image=data:image/png%3Bbase64,iVBOR;" vertex="1" parent="1"/>'']\<close>
proof -
  have one: \<open>\<not> spec_isMxCellXmlComplete ''<a'' \<and>
     \<not> isFreshStart ''/>'' \<and> \<not> isFreshStart ''<b/>'' \<and>
     spec_isMxCellXmlComplete (''<a'' @ ''/>'' @ ''<b/>'') \<and>
     displayCalls early_completion_run = [example_wrap ''<a/>'', example_wrap ''<b/>''] \<and>
     displayCalls (handleDisplayDiagram quiet_deps ''call-0'' (''<a'' @ ''/>'' @ ''<b/>'') empty_state) =
       [example_wrap ''<a/><b/>'']\<close>
    by (simp add: early_completion_run_def quiet_deps_def example_deps_def empty_state_def
      handleDisplayDiagram_def handleAppendDiagram_def addToolOutput_def truthy_string_def
      spec_isMxCellXmlComplete_def scan_def scan_char_def scan_init_def scan_accepts_def
      is_quote_char_def isFreshStart_def trim_def startsWith_def is_js_space_def Let_def)
  have whole: "cut_first @ cut_rest = one_reference"
    by (simp add: cut_first_def cut_rest_def one_reference_def)
  have m0: "matchAll cut_first = []"
    by (simp add: cut_first_def match_eval)
  have r0: "resolve_cache_references (fetchCachedRegions store_deps) cut_first = cut_first"
    using m0 by (rule no_references_resolve)
  have r1: \<open>resolve_cache_references example_store one_reference =
     ''<mxCell id="2" style="shape=image;image=data:image/png%3Bbase64,iVBOR;" vertex="1" parent="1"/>''\<close>
    unfolding resolve_cache_references_def one_reference_matches
    by (simp add: resolve_eval example_store_def one_reference_def)
  have c0: "\<not> spec_isMxCellXmlComplete cut_first"
    by (simp add: cut_first_def detector_eval)
  have f1: "\<not> isFreshStart cut_rest"
    by (simp add: cut_rest_def fresh_eval)
  have c1: "spec_isMxCellXmlComplete (cut_first @ cut_rest)"
    by (simp add: cut_first_def cut_rest_def detector_eval)
  have c2: "isMxCellXmlComplete store_deps
      (resolve_cache_references (fetchCachedRegions store_deps) one_reference)"
    unfolding store_deps_fields r1 by (simp add: detector_eval)
  have e: "displayCalls empty_state = []"
    by (simp add: empty_state_def)
  let ?st0 = "handleDisplayDiagram store_deps ''call-0'' cut_first empty_state"
  have i0: "\<not> isMxCellXmlComplete store_deps
      (resolve_cache_references (fetchCachedRegions store_deps) cut_first)"
    unfolding r0 using c0 by (simp add: store_deps_fields)
  have st0: "partialXmlRef ?st0 = cut_first" "displayCalls ?st0 = []"
    unfolding display_incomplete_step [OF i0] by (simp_all add: r0 e)
  have "isMxCellXmlComplete store_deps (partialXmlRef ?st0 @ cut_rest)"
    using c1 by (simp add: st0 store_deps_fields)
  from complete_step [OF f1 this, of "''call-1''"]
  have a: "displayCalls (run_appends store_deps [(''call-1'', cut_rest)] ?st0) =
      [example_wrap one_reference]"
    by (simp add: st0 store_deps_fields whole)
  from display_complete_step [OF c2, of "''call-0''" empty_state]
  have b: \<open>displayCalls (handleDisplayDiagram store_deps ''call-0'' one_reference empty_state) =
     [example_wrap
        ''<mxCell id="2" style="shape=image;image=data:image/png%3Bbase64,iVBOR;" vertex="1" parent="1"/>'']\<close>
    by (simp add: e r1 store_deps_fields)
  from one c0 f1 c1 a b show ?thesis
    unfolding whole by (simp add: one_reference_def)
qed

end
